theory Spec2Isabelle
  imports Complex_Main "HOL-Library.AList" "HOL-Library.Sublist"
begin

section \<open>Values and exceptions\<close>

text \<open>
  Python values that cross a module boundary untyped (capability results, JSON file
  contents). Floats are modelled by reals: the properties below depend on sums,
  quotients and comparisons with literal constants only. A \<open>VDict\<close> keeps its items in
  insertion order, as a Python dict does.
\<close>

datatype pyval =
    VNone
  | VBool bool
  | VInt int
  | VFloat real
  | VStr string
  | VList "pyval list"
  | VDict "(string \<times> pyval) list"

text \<open>
  The exception classes that the modelled code raises or lets escape. Messages and the
  chained cause (\<open>raise ... from e\<close>) are dropped. \<open>LoaderCapabilityError\<close> is the class
  \<open>CapabilityError\<close> that capability_loader.py declares for itself; \<open>CapabilityError\<close> is
  the one of error_handling.py. \<open>HandlerError\<close> stands for what a handler put in the
  place of one of the core's handler methods raises.
\<close>

datatype exn =
    CapabilityError
  | LoaderCapabilityError
  | SelfReflectionError
  | DataPersistenceError
  | TypeError
  | KeyError
  | AttributeError
  | HandlerError

section \<open>self_reflection.py\<close>

text \<open>
  One entry of \<open>performance_logs\<close>, the dict that \<open>log_performance\<close> builds. Timestamps
  (\<open>get_timestamp()\<close>, a string with a resolution of one second) are modelled by the
  number of seconds they denote.
\<close>

record log_entry =
  timestamp :: int
  task_name :: string
  result :: pyval
  execution_time :: real

text \<open>
  One entry of \<open>project_management_logs\<close>. The analysis reads four keys: \<open>action\<close>,
  \<open>priority\<close> and \<open>tokens_used\<close> through \<open>log.get\<close> (so they may be absent) and
  \<open>timestamp\<close> through \<open>log["timestamp"]\<close> (KeyError when absent).
\<close>

record pm_log =
  pm_action :: "string option"
  pm_priority :: "string option"
  pm_timestamp :: "string option"
  pm_tokens_used :: "int option"

record self_reflection =
  performance_logs :: "log_entry list"
  project_management_logs :: "pm_log list"

text \<open>
  \<open>SelfReflection.log_performance(task_name, result, execution_time)\<close>; \<open>now\<close> is what
  \<open>get_timestamp()\<close> returns during the call. The method has no check and no raise.
\<close>

definition log_performance ::
  "int \<Rightarrow> string \<Rightarrow> pyval \<Rightarrow> real \<Rightarrow> self_reflection \<Rightarrow> self_reflection" where
  "log_performance now name res t sr =
     sr\<lparr>performance_logs := performance_logs sr @
          [\<lparr>timestamp = now, task_name = name, result = res, execution_time = t\<rparr>]\<rparr>"

definition log_project_management_performance ::
  "pm_log list \<Rightarrow> self_reflection \<Rightarrow> self_reflection" where
  "log_project_management_performance project_logs sr =
     sr\<lparr>project_management_logs := project_management_logs sr @ project_logs\<rparr>"

text \<open>The two shapes of the dict that \<open>analyze_performance\<close> returns.\<close>

datatype perf_analysis =
    Perf_message string
  | Perf_stats (total_tasks: nat) (total_execution_time: real) (average_execution_time: real)

definition analyze_performance :: "self_reflection \<Rightarrow> perf_analysis" where
  "analyze_performance sr =
     (if performance_logs sr = [] then Perf_message ''No performance data available.''
      else
        let n = length (performance_logs sr);
            total_time = sum_list (map execution_time (performance_logs sr))
        in Perf_stats n total_time (total_time / real n))"

text \<open>\<open>performance_analysis.get("average_execution_time", d)\<close>\<close>

fun get_average_execution_time :: "perf_analysis \<Rightarrow> real \<Rightarrow> real" where
  "get_average_execution_time (Perf_message m) d = d"
| "get_average_execution_time (Perf_stats n tt avg) d = avg"

text \<open>The two shapes of the dict that \<open>analyze_project_management_performance\<close> returns.\<close>

record pm_stats =
  pm_total_tasks :: nat
  completed_tasks :: nat
  completion_rate :: real
  priority_distribution :: "(string \<times> nat) list"
  progress_over_time :: "(string \<times> real) list"
  token_usage_over_time :: "(string \<times> int) list"
  total_tokens_used :: int

datatype pm_analysis =
    Pm_message string
  | Pm_stats pm_stats

text \<open>
  The body of the \<open>for log in self.project_management_logs\<close> loop: the accumulator is
  \<open>(pd, pot, tuot, ttu)\<close> for priority_distribution, progress_over_time,
  token_usage_over_time and total_tokens_used.
  \<open>priority_distribution[priority] += 1\<close> raises KeyError for a priority that is not one
  of the three keys, \<open>log["timestamp"]\<close> raises KeyError when the key is absent.
\<close>

type_synonym pm_acc = "(string \<times> nat) list \<times> (string \<times> real) list \<times> (string \<times> int) list \<times> int"

fun pm_loop :: "real \<Rightarrow> pm_log list \<Rightarrow> pm_acc \<Rightarrow> exn + pm_acc" where
  "pm_loop progress [] acc = Inr acc"
| "pm_loop progress (lg # logs) (pd, pot, tuot, ttu) =
     (let priority = (case pm_priority lg of None \<Rightarrow> ''Medium'' | Some p \<Rightarrow> p) in
      case map_of pd priority of
        None \<Rightarrow> Inl KeyError
      | Some c \<Rightarrow>
          (case pm_timestamp lg of
             None \<Rightarrow> Inl KeyError
           | Some ts \<Rightarrow>
               let tokens = (case pm_tokens_used lg of None \<Rightarrow> 0 | Some k \<Rightarrow> k) in
               pm_loop progress logs
                 (AList.update priority (c + 1) pd,
                  pot @ [(ts, progress)],
                  tuot @ [(ts, tokens)],
                  ttu + tokens)))"

definition analyze_project_management_performance :: "self_reflection \<Rightarrow> exn + pm_analysis" where
  "analyze_project_management_performance sr =
     (if project_management_logs sr = []
      then Inr (Pm_message ''No project management data available.'')
      else
        let logs = project_management_logs sr;
            n = length logs;
            completed = length (filter (\<lambda>lg. pm_action lg = Some ''complete_task'') logs)
        in case pm_loop (real completed / real n * 100) logs
                  ([(''High'', 0), (''Medium'', 0), (''Low'', 0)], [], [], 0) of
             Inl e \<Rightarrow> Inl e
           | Inr (pd, pot, tuot, ttu) \<Rightarrow>
               Inr (Pm_stats \<lparr>pm_total_tasks = n, completed_tasks = completed,
                     completion_rate = real completed / real n,
                     priority_distribution = pd, progress_over_time = pot,
                     token_usage_over_time = tuot, total_tokens_used = ttu\<rparr>))"

text \<open>\<open>project_management_analysis.get("completion_rate", d)\<close> and
  \<open>project_management_analysis.get("total_tokens_used", d)\<close>\<close>

fun get_completion_rate :: "pm_analysis \<Rightarrow> real \<Rightarrow> real" where
  "get_completion_rate (Pm_message m) d = d"
| "get_completion_rate (Pm_stats s) d = completion_rate s"

fun get_total_tokens_used :: "pm_analysis \<Rightarrow> int \<Rightarrow> int" where
  "get_total_tokens_used (Pm_message m) d = d"
| "get_total_tokens_used (Pm_stats s) d = total_tokens_used s"

definition suggest_improvements :: "self_reflection \<Rightarrow> exn + string list" where
  "suggest_improvements sr =
     (let performance_analysis = analyze_performance sr in
      case analyze_project_management_performance sr of
        Inl e \<Rightarrow> Inl e
      | Inr project_management_analysis \<Rightarrow>
          let s0 = [];
              s1 = (if get_average_execution_time performance_analysis 0 > 1.0
                    then s0 @ [''Consider optimizing task execution for better performance.'']
                    else s0);
              s2 = (if get_completion_rate project_management_analysis 0 < 0.8
                    then s1 @ [''Improve task completion rate in project management.'']
                    else s1);
              s3 = (if get_total_tokens_used project_management_analysis 0 > 10000
                    then s2 @ [''Look into reducing token usage for more efficient operations.'']
                    else s2)
          in Inr s3)"

section \<open>String helpers\<close>

definition startswith :: "string \<Rightarrow> string \<Rightarrow> bool" where
  "startswith s p = prefix p s"

definition endswith :: "string \<Rightarrow> string \<Rightarrow> bool" where
  "endswith s p = prefix (rev p) (rev s)"

text \<open>
  The characters that \<open>str.strip()\<close> removes, among the code points below 256: tab to
  carriage return, the four separators 28 to 31, the space, NEL and the no-break space.
\<close>

definition isspace :: "char \<Rightarrow> bool" where
  "isspace c =
     (let n = of_char c :: nat
      in (9 \<le> n \<and> n \<le> 13) \<or> (28 \<le> n \<and> n \<le> 32) \<or> n = 133 \<or> n = 160)"

definition strip :: "string \<Rightarrow> string" where
  "strip s = rev (dropWhile isspace (rev (dropWhile isspace s)))"

section \<open>capability_loader.py\<close>

text \<open>
  A capability function: what \<open>bool(f)\<close> gives (an ordinary function object is true)
  and what a call with positional arguments returns or raises. Capabilities are taken to
  have no effect on the state modelled here.
\<close>

record handle =
  truthy :: bool
  call :: "pyval list \<Rightarrow> exn + pyval"

text \<open>
  An attribute of a loaded module: \<open>callable(item)\<close> holds for \<open>Callable\<close> only. A
  namespace lists \<open>(item_name, getattr(module, item_name))\<close> for \<open>item_name\<close> in
  \<open>dir(module)\<close>.
\<close>

datatype item = Callable handle | Plain pyval

type_synonym namespace = "(string \<times> item) list"

type_synonym loader = "(string \<times> handle) list"

text \<open>The \<open>for item_name in dir(module)\<close> loop of \<open>load_capability_module\<close>.\<close>

fun register_items :: "string \<Rightarrow> namespace \<Rightarrow> loader \<Rightarrow> loader" where
  "register_items module_name [] caps = caps"
| "register_items module_name ((item_name, Callable h) # rest) caps =
     (if \<not> startswith item_name ''__''
      then register_items module_name rest
             (AList.update (module_name @ ''.'' @ item_name) h caps)
      else register_items module_name rest caps)"
| "register_items module_name ((item_name, Plain v) # rest) caps =
     register_items module_name rest caps"

text \<open>
  \<open>load_capability_module\<close>: the module source is \<open>None\<close> when importing it raises
  (\<open>spec_from_file_location\<close>, \<open>module_from_spec\<close>, \<open>exec_module\<close>), otherwise its
  namespace.
\<close>

definition load_capability_module ::
  "string \<Rightarrow> namespace option \<Rightarrow> loader \<Rightarrow> exn + loader" where
  "load_capability_module module_name src caps =
     (case src of
        None \<Rightarrow> Inl LoaderCapabilityError
      | Some ns \<Rightarrow> Inr (register_items module_name ns caps))"

text \<open>The \<open>for filename in os.listdir(self.capability_dir)\<close> loop.\<close>

fun load_modules :: "(string \<times> namespace option) list \<Rightarrow> loader \<Rightarrow> exn + loader" where
  "load_modules [] caps = Inr caps"
| "load_modules ((filename, src) # rest) caps =
     (if endswith filename ''.py'' \<and> \<not> startswith filename ''__''
      then (case load_capability_module (take (length filename - 3) filename) src caps of
              Inl e \<Rightarrow> Inl e
            | Inr caps' \<Rightarrow> load_modules rest caps')
      else load_modules rest caps)"

text \<open>
  \<open>load_capabilities\<close>, run by the constructor on an empty dict: the directory is
  \<open>None\<close> when \<open>os.listdir\<close> raises.
\<close>

definition load_capabilities ::
  "(string \<times> namespace option) list option \<Rightarrow> exn + loader" where
  "load_capabilities capability_dir =
     (case capability_dir of
        None \<Rightarrow> Inl LoaderCapabilityError
      | Some fs \<Rightarrow>
          (case load_modules fs [] of
             Inl e \<Rightarrow> Inl LoaderCapabilityError
           | Inr caps \<Rightarrow> Inr caps))"

definition loader_get_capability :: "loader \<Rightarrow> string \<Rightarrow> exn + handle" where
  "loader_get_capability caps capability_name =
     (case map_of caps capability_name of
        None \<Rightarrow> Inl LoaderCapabilityError
      | Some h \<Rightarrow> Inr h)"

section \<open>data_persistence.py\<close>

definition DATA_VERSION :: string where
  "DATA_VERSION = ''1.0''"

text \<open>
  The files of \<open>DATA_DIR\<close> in the order of \<open>os.listdir\<close>: the name and the value that
  \<open>json.load\<close> returns, \<open>None\<close> when opening or parsing the file raises.
\<close>

type_synonym data_files = "(string \<times> pyval option) list"

text \<open>
  What a call meets outside the program: the text of
  \<open>datetime.now().strftime('%Y%m%d_%H%M%S')\<close>, whether \<open>os.makedirs\<close> succeeds,
  and whether the snapshot file is opened and written in full (\<open>write_ok\<close>). When it
  is not, \<open>fails_after_open\<close> tells whether \<open>open(filepath, 'w')\<close> had succeeded, so
  that the file was created or truncated before the write failed.
\<close>

record env =
  now :: string
  mkdir_ok :: bool
  write_ok :: bool
  fails_after_open :: bool

text \<open>\<open>data.get(key, default)\<close>: only a dict has the method.\<close>

fun py_get :: "pyval \<Rightarrow> string \<Rightarrow> pyval \<Rightarrow> exn + pyval" where
  "py_get (VDict items) k d = Inr (case map_of items k of None \<Rightarrow> d | Some v \<Rightarrow> v)"
| "py_get v k d = Inl AttributeError"

definition is_compatible_version :: "pyval \<Rightarrow> exn + bool" where
  "is_compatible_version data =
     (case py_get data ''version'' VNone of
        Inl e \<Rightarrow> Inl e
      | Inr v \<Rightarrow> Inr (v = VStr DATA_VERSION))"

text \<open>
  \<open>save_performance_data\<close>. The file name has a resolution of one second, so the file
  is created or an existing one of the same second is overwritten. A write that fails
  before \<open>open\<close> succeeds leaves the directory as it was; one that fails after it
  leaves the file cut off inside the JSON object (or empty), which \<open>json.load\<close>
  rejects. With \<open>debug_mode\<close> the call reads \<open>performance_data.keys()\<close> after the file
  is written, which only a dict has.
\<close>

definition save_performance_data ::
  "pyval \<Rightarrow> bool \<Rightarrow> env \<Rightarrow> data_files \<Rightarrow> (exn + unit) \<times> data_files" where
  "save_performance_data performance_data debug_mode e files =
     (if \<not> mkdir_ok e then (Inl DataPersistenceError, files)
      else
        let filename = ''performance_'' @ now e @ ''.json'';
            data_to_save = VDict [(''version'', VStr DATA_VERSION),
                                  (''performance_data'', performance_data)]
        in if \<not> write_ok e
           then (Inl DataPersistenceError,
                 if fails_after_open e then AList.update filename None files else files)
           else
             let files' = AList.update filename (Some data_to_save) files
             in if debug_mode
                then (case performance_data of
                        VDict items \<Rightarrow> (Inr (), files')
                      | _ \<Rightarrow> (Inl DataPersistenceError, files'))
                else (Inr (), files'))"

text \<open>The \<open>for filename in os.listdir(DATA_DIR)\<close> loop of \<open>load_performance_data\<close>.\<close>

fun load_loop :: "data_files \<Rightarrow> pyval list \<Rightarrow> exn + pyval list" where
  "load_loop [] performance_data = Inr performance_data"
| "load_loop ((filename, content) # rest) performance_data =
     (if startswith filename ''performance_'' \<and> endswith filename ''.json''
      then (case content of
              None \<Rightarrow> Inl DataPersistenceError
            | Some data \<Rightarrow>
                (case is_compatible_version data of
                   Inl e \<Rightarrow> Inl e
                 | Inr compatible \<Rightarrow>
                     if compatible
                     then (case py_get data ''performance_data'' (VDict []) of
                             Inl e \<Rightarrow> Inl e
                           | Inr v \<Rightarrow> load_loop rest (performance_data @ [v]))
                     else load_loop rest performance_data))
      else load_loop rest performance_data)"

definition load_performance_data :: "env \<Rightarrow> data_files \<Rightarrow> exn + pyval list" where
  "load_performance_data e files =
     (if \<not> mkdir_ok e then Inl DataPersistenceError
      else (case load_loop files [] of
              Inl x \<Rightarrow> Inl DataPersistenceError
            | Inr performance_data \<Rightarrow> Inr performance_data))"

section \<open>capability_registry.py\<close>

text \<open>
  One value of the registry's \<open>capabilities\<close> dict. The description is a string when
  it comes from \<open>add_capability\<close> and whatever was stored when it comes from a file.
\<close>

record capability =
  description :: pyval
  func :: handle

record registry =
  capability_loader :: loader
  capabilities :: "(string \<times> capability) list"

text \<open>\<open>entry[key]\<close> for a string key: KeyError on a dict without the key, TypeError on
  a value that is no dict.\<close>

fun py_index :: "pyval \<Rightarrow> string \<Rightarrow> exn + pyval" where
  "py_index (VDict items) k = (case map_of items k of None \<Rightarrow> Inl KeyError | Some v \<Rightarrow> Inr v)"
| "py_index v k = Inl TypeError"

text \<open>
  The loop of \<open>_load_capabilities\<close> over the loaded entries. A name that is not a string
  is no key of the loader: the lookup raises TypeError for an unhashable name and the
  loader's CapabilityError otherwise.
\<close>

fun load_entries ::
  "loader \<Rightarrow> pyval list \<Rightarrow> (string \<times> capability) list \<Rightarrow> exn + (string \<times> capability) list" where
  "load_entries ld [] caps = Inr caps"
| "load_entries ld (entry # rest) caps =
     (case py_get entry ''type'' VNone of
        Inl e \<Rightarrow> Inl e
      | Inr t \<Rightarrow>
          if t = VStr ''capability''
          then (case py_index entry ''name'' of
                  Inl e \<Rightarrow> Inl e
                | Inr name \<Rightarrow>
                    (case py_index entry ''description'' of
                       Inl e \<Rightarrow> Inl e
                     | Inr d \<Rightarrow>
                         (case name of
                            VStr n \<Rightarrow>
                              (case loader_get_capability ld n of
                                 Inl e \<Rightarrow> Inl e
                               | Inr f \<Rightarrow>
                                   load_entries ld rest
                                     (AList.update n \<lparr>description = d, func = f\<rparr> caps))
                          | VList xs \<Rightarrow> Inl TypeError
                          | VDict xs \<Rightarrow> Inl TypeError
                          | _ \<Rightarrow> Inl LoaderCapabilityError)))
          else load_entries ld rest caps)"

text \<open>\<open>_load_capabilities\<close> of the registry, on its empty \<open>capabilities\<close> dict.\<close>

definition registry_load_capabilities ::
  "loader \<Rightarrow> env \<Rightarrow> data_files \<Rightarrow> exn + (string \<times> capability) list" where
  "registry_load_capabilities ld e files =
     (case load_performance_data e files of
        Inl x \<Rightarrow> Inl x
      | Inr stored_data \<Rightarrow> load_entries ld stored_data [])"

text \<open>
  The constructor: the loader scans the capability directory, then
  \<open>_load_capabilities\<close> reads the stored entries. No exception is caught here.
\<close>

definition CapabilityRegistry_init ::
  "(string \<times> namespace option) list option \<Rightarrow> env \<Rightarrow> data_files \<Rightarrow> exn + registry" where
  "CapabilityRegistry_init capability_dir e files =
     (case load_capabilities capability_dir of
        Inl x \<Rightarrow> Inl x
      | Inr ld \<Rightarrow>
          (case registry_load_capabilities ld e files of
             Inl x \<Rightarrow> Inl x
           | Inr caps \<Rightarrow> Inr \<lparr>capability_loader = ld, capabilities = caps\<rparr>))"

text \<open>\<open>_save_capabilities\<close>: the registry never passes \<open>debug_mode\<close> on.\<close>

definition save_capabilities :: "registry \<Rightarrow> env \<Rightarrow> data_files \<Rightarrow> (exn + unit) \<times> data_files" where
  "save_capabilities reg e files =
     save_performance_data
       (VList (map (\<lambda>(name, info).
                  VDict [(''type'', VStr ''capability''), (''name'', VStr name),
                         (''description'', description info)])
               (capabilities reg)))
       False e files"

text \<open>
  \<open>add_capability\<close>. The arguments are strings, so the two \<open>isinstance\<close> tests hold.
  Every exception raised inside the \<open>try\<close> leaves as CapabilityError; the result also
  carries the registry and the files as the call leaves them.
\<close>

definition add_capability ::
  "string \<Rightarrow> string \<Rightarrow> env \<Rightarrow> registry \<times> data_files
     \<Rightarrow> (exn + unit) \<times> registry \<times> data_files" where
  "add_capability name descr e = (\<lambda>(reg, files).
     if strip name = [] then (Inl CapabilityError, reg, files)
     else if map_of (capabilities reg) name \<noteq> None then (Inl CapabilityError, reg, files)
     else
       (case loader_get_capability (capability_loader reg) name of
          Inl x \<Rightarrow> (Inl CapabilityError, reg, files)
        | Inr f \<Rightarrow>
            if \<not> truthy f then (Inl CapabilityError, reg, files)
            else
              let reg' = reg\<lparr>capabilities :=
                           AList.update name \<lparr>description = VStr descr, func = f\<rparr>
                             (capabilities reg)\<rparr>
              in (case save_capabilities reg' e files of
                    (Inl x, files') \<Rightarrow> (Inl CapabilityError, reg', files')
                  | (Inr u, files') \<Rightarrow> (Inr (), reg', files'))))"

definition get_capability :: "registry \<Rightarrow> string \<Rightarrow> exn + capability" where
  "get_capability reg name =
     (case map_of (capabilities reg) name of
        None \<Rightarrow> Inl CapabilityError
      | Some c \<Rightarrow> Inr c)"

definition list_capabilities :: "registry \<Rightarrow> (string \<times> pyval) list" where
  "list_capabilities reg = map (\<lambda>(name, info). (name, description info)) (capabilities reg)"

definition remove_capability ::
  "string \<Rightarrow> env \<Rightarrow> registry \<times> data_files \<Rightarrow> (exn + bool) \<times> registry \<times> data_files" where
  "remove_capability name e = (\<lambda>(reg, files).
     if map_of (capabilities reg) name \<noteq> None
     then
       let reg' = reg\<lparr>capabilities := AList.delete name (capabilities reg)\<rparr>
       in (case save_capabilities reg' e files of
             (Inl x, files') \<Rightarrow> (Inl CapabilityError, reg', files')
           | (Inr u, files') \<Rightarrow> (Inr True, reg', files'))
     else (Inr False, reg, files))"

definition execute_capability :: "registry \<Rightarrow> string \<Rightarrow> pyval list \<Rightarrow> exn + pyval" where
  "execute_capability reg name args =
     (case get_capability reg name of
        Inl x \<Rightarrow> Inl CapabilityError
      | Inr c \<Rightarrow>
          (case call (func c) args of
             Inl x \<Rightarrow> Inl CapabilityError
           | Inr v \<Rightarrow> Inr v))"

subsection \<open>Sequences of registry operations\<close>

text \<open>
  A caller's sequence of \<open>add\<close> and \<open>remove\<close> calls, each with the environment it meets.
  \<open>run_ops\<close> returns the outcome of every call and the final state.
\<close>

datatype op = Add string string | Remove string

fun apply_op ::
  "op \<Rightarrow> env \<Rightarrow> registry \<times> data_files \<Rightarrow> (exn + pyval) \<times> registry \<times> data_files" where
  "apply_op (Add name descr) e st =
     (case add_capability name descr e st of
        (Inl x, st') \<Rightarrow> (Inl x, st')
      | (Inr u, st') \<Rightarrow> (Inr VNone, st'))"
| "apply_op (Remove name) e st =
     (case remove_capability name e st of
        (Inl x, st') \<Rightarrow> (Inl x, st')
      | (Inr b, st') \<Rightarrow> (Inr (VBool b), st'))"

fun run_ops ::
  "(op \<times> env) list \<Rightarrow> registry \<times> data_files
     \<Rightarrow> (exn + pyval) list \<times> registry \<times> data_files" where
  "run_ops [] st = ([], st)"
| "run_ops ((o1, e) # rest) st =
     (case apply_op o1 e st of
        (r, st') \<Rightarrow> (case run_ops rest st' of (rs, st'') \<Rightarrow> (r # rs, st'')))"

text \<open>
  The names that the specification expects \<open>list()\<close> to show after a sequence of calls
  with the given outcomes: those whose add succeeded, less those that a later remove
  found and removed.
\<close>

fun expected_names :: "(op \<times> (exn + pyval)) list \<Rightarrow> string set \<Rightarrow> string set" where
  "expected_names [] S = S"
| "expected_names ((Add name descr, r) # rest) S =
     expected_names rest (if r = Inr VNone then insert name S else S)"
| "expected_names ((Remove name, r) # rest) S =
     expected_names rest (if r = Inr (VBool True) then S - {name} else S)"

subsection \<open>Sample capability functions\<close>

text \<open>A function that returns \<open>v\<close> on every call, and one that raises on every call.\<close>

definition returns :: "pyval \<Rightarrow> handle" where
  "returns v = \<lparr>truthy = True, call = (\<lambda>args. Inr v)\<rparr>"

definition raises :: "exn \<Rightarrow> handle" where
  "raises x = \<lparr>truthy = True, call = (\<lambda>args. Inl x)\<rparr>"

section \<open>ai_core.py\<close>

subsection \<open>Calls across the module boundary\<close>

text \<open>
  Whether Python can bind a call to a method whose parameters (after \<open>self\<close>) are
  \<open>params\<close>, none with a default and no \<open>*args\<close> or \<open>**kwargs\<close>: the call passes
  \<open>npos\<close> positional arguments and the keyword arguments named \<open>kws\<close>. A call that
  does not bind raises TypeError before the body runs.
\<close>

definition binds :: "string list \<Rightarrow> nat \<Rightarrow> string list \<Rightarrow> bool" where
  "binds params npos kws =
     (npos \<le> length params \<and> distinct kws \<and> set kws = set (drop npos params))"

text \<open>\<open>def __init__(self, capability_registry)\<close> and
  \<open>def log_performance(self, task_name, result, execution_time)\<close> of self_reflection.py.\<close>

definition SelfReflection_init_params :: "string list" where
  "SelfReflection_init_params = [''capability_registry'']"

definition log_performance_params :: "string list" where
  "log_performance_params = [''task_name'', ''result'', ''execution_time'']"

subsection \<open>The core and one task cycle\<close>

text \<open>The dict that \<open>AICore.execute_capability\<close> returns.\<close>

record task_result =
  tr_result :: pyval
  tr_execution_time :: real
  tr_category :: string

text \<open>
  The state of an \<open>AICore\<close>. \<open>clock_reads\<close> counts the calls of \<open>get_timestamp()\<close>
  made so far; the clock itself is a parameter, \<open>clock n\<close> being the time in seconds
  that the call number \<open>n\<close> reads.
\<close>

record ai_core =
  capability_registry :: registry
  self_reflection :: self_reflection
  running :: bool
  performance_data :: "(string \<times> task_result list) list"
  clock_reads :: nat

definition get_timestamp :: "(nat \<Rightarrow> int) \<Rightarrow> ai_core \<Rightarrow> int \<times> ai_core" where
  "get_timestamp clock c = (clock (clock_reads c), c\<lparr>clock_reads := Suc (clock_reads c)\<rparr>)"

definition get_time_difference :: "int \<Rightarrow> int \<Rightarrow> real" where
  "get_time_difference start_time end_time = real_of_int (end_time - start_time)"

text \<open>
  The constructor: \<open>SelfReflection(self.capability_registry, debug_mode)\<close> passes two
  positional arguments.
\<close>

definition AICore_init ::
  "(string \<times> namespace option) list option \<Rightarrow> env \<Rightarrow> data_files \<Rightarrow> exn + ai_core" where
  "AICore_init capability_dir e files =
     (case CapabilityRegistry_init capability_dir e files of
        Inl x \<Rightarrow> Inl x
      | Inr reg \<Rightarrow>
          if binds SelfReflection_init_params 2 []
          then Inr \<lparr>capability_registry = reg,
                    self_reflection = \<lparr>performance_logs = [], project_management_logs = []\<rparr>,
                    running = False, performance_data = [], clock_reads = 0\<rparr>
          else Inl TypeError)"

text \<open>
  \<open>AICore.execute_capability\<close>: a failing capability gives the result \<open>None\<close>; the
  method itself does not raise.
\<close>

definition core_execute_capability ::
  "(nat \<Rightarrow> int) \<Rightarrow> string \<Rightarrow> ai_core \<Rightarrow> task_result \<times> ai_core" where
  "core_execute_capability clock capability_name c =
     (let (start_time, c1) = get_timestamp clock c;
          res = (case execute_capability (capability_registry c1) capability_name [] of
                   Inl x \<Rightarrow> VNone
                 | Inr v \<Rightarrow> v);
          (end_time, c2) = get_timestamp clock c1
      in (\<lparr>tr_result = res, tr_execution_time = get_time_difference start_time end_time,
           tr_category = ''capability_execution''\<rparr>, c2))"

definition update_performance_data :: "string \<Rightarrow> task_result \<Rightarrow> ai_core \<Rightarrow> ai_core" where
  "update_performance_data cap tr c =
     c\<lparr>performance_data :=
         AList.update cap
           ((case map_of (performance_data c) cap of None \<Rightarrow> [] | Some rs \<Rightarrow> rs) @ [tr])
           (performance_data c)\<rparr>"

text \<open>
  The body of the loop of \<open>execute_task_cycle\<close> for one capability. The call
  \<open>log_performance(capability_name, result, execution_time, category=...)\<close> passes three
  positional arguments and the keyword \<open>category\<close>; when it does not bind, the TypeError
  is caught by \<open>except Exception\<close>, logged, and the loop goes on.
\<close>

definition cycle_body :: "(nat \<Rightarrow> int) \<Rightarrow> string \<Rightarrow> ai_core \<Rightarrow> ai_core" where
  "cycle_body clock capability_name c =
     (let (task_result, c1) = core_execute_capability clock capability_name c
      in if binds log_performance_params 3 [''category'']
         then
           (let (ts, c2) = get_timestamp clock c1;
                c3 = c2\<lparr>self_reflection :=
                        log_performance ts capability_name (tr_result task_result)
                          (tr_execution_time task_result) (self_reflection c2)\<rparr>
            in update_performance_data capability_name task_result c3)
         else c1)"

fun cycle_loop :: "(nat \<Rightarrow> int) \<Rightarrow> (string \<times> pyval) list \<Rightarrow> ai_core \<Rightarrow> ai_core" where
  "cycle_loop clock [] c = c"
| "cycle_loop clock ((capability_name, descr) # rest) c =
     cycle_loop clock rest (cycle_body clock capability_name c)"

definition execute_task_cycle :: "(nat \<Rightarrow> int) \<Rightarrow> ai_core \<Rightarrow> ai_core" where
  "execute_task_cycle clock c =
     cycle_loop clock (list_capabilities (capability_registry c)) c"

subsection \<open>Acting on insights\<close>

text \<open>
  The keys that \<open>act_on_insights\<close> reads from the analysis dict, each absent or present,
  and the keys it reads from the trend dict.
\<close>

record trend =
  trend_direction :: "string option"
  trend_strength :: "real option"
  slope :: "real option"

record insights =
  trend_analysis :: "trend option"
  anomalies :: "pyval list option"
  performance_summary :: "(string \<times> real) list option"
  areas_for_improvement :: "string list option"

text \<open>
  One invocation of a handler method with its arguments. The handlers are the methods of
  the object (the tests replace them with \<open>patch.object\<close>): \<open>h\<close> tells for each
  invocation whether it returns (\<open>None\<close>) or raises.
\<close>

datatype hcall =
    Address_decreasing_performance trend
  | Address_anomalies "(string \<times> real) list" "pyval list"
  | Optimize_slow_tasks string
  | Improve_capability_reliability string
  | Consider_new_capabilities string

text \<open>Truth value of a Python value, as \<open>any\<close> tests it.\<close>

fun py_truthy :: "pyval \<Rightarrow> bool" where
  "py_truthy VNone = False"
| "py_truthy (VBool b) = b"
| "py_truthy (VInt i) = (i \<noteq> 0)"
| "py_truthy (VFloat r) = (r \<noteq> 0)"
| "py_truthy (VStr s) = (s \<noteq> [])"
| "py_truthy (VList xs) = (xs \<noteq> [])"
| "py_truthy (VDict d) = (d \<noteq> [])"

text \<open>Whether \<open>0 + x\<close> is defined: \<open>sum\<close> raises TypeError on any other item.\<close>

fun summable :: "pyval \<Rightarrow> bool" where
  "summable (VBool b) = True"
| "summable (VInt i) = True"
| "summable (VFloat r) = True"
| "summable v = False"

text \<open>
  The handlers of ai_core.py as they stand: each logs a line and returns, and
  \<open>address_anomalies\<close> computes \<open>sum(anomalies)\<close> for its line first.
\<close>

definition source_handlers :: "hcall \<Rightarrow> exn option" where
  "source_handlers c =
     (case c of
        Address_anomalies summary anoms \<Rightarrow>
          if list_all summable anoms then None else Some TypeError
      | _ \<Rightarrow> None)"

text \<open>\<open>sub in s\<close> for strings.\<close>

definition contains :: "string \<Rightarrow> string \<Rightarrow> bool" where
  "contains s sub = sublist sub s"

text \<open>The \<open>if\<close>/\<open>elif\<close> chain that routes one improvement string.\<close>

definition route :: "string \<Rightarrow> hcall option" where
  "route improvement =
     (if contains improvement ''Optimize performance for tasks''
      then Some (Optimize_slow_tasks improvement)
      else if contains improvement ''Improve reliability of capabilities''
      then Some (Improve_capability_reliability improvement)
      else if contains improvement ''Consider adding new capabilities''
      then Some (Consider_new_capabilities improvement)
      else None)"

text \<open>
  What a run of \<open>act_on_insights\<close> does: the handler invocations in order, the
  exceptions that the \<open>try\<close> of the improvement loop caught and logged, and the
  exception that left the method, if any.
\<close>

record acted =
  invoked :: "hcall list"
  logged :: "exn list"
  escaped :: "exn option"

text \<open>The \<open>for improvement in ...\<close> loop, with its \<open>try\<close> around each routing.\<close>

fun improvements_loop :: "(hcall \<Rightarrow> exn option) \<Rightarrow> string list \<Rightarrow> acted \<Rightarrow> acted" where
  "improvements_loop h [] a = a"
| "improvements_loop h (improvement # rest) a =
     (case route improvement of
        None \<Rightarrow> improvements_loop h rest a
      | Some c \<Rightarrow>
          (case h c of
             None \<Rightarrow> improvements_loop h rest (a\<lparr>invoked := invoked a @ [c]\<rparr>)
           | Some x \<Rightarrow>
               improvements_loop h rest
                 (a\<lparr>invoked := invoked a @ [c], logged := logged a @ [x]\<rparr>)))"

definition act_on_insights :: "(hcall \<Rightarrow> exn option) \<Rightarrow> insights \<Rightarrow> acted" where
  "act_on_insights h analysis =
     (let tr = (case trend_analysis analysis of
                  None \<Rightarrow> \<lparr>trend_direction = None, trend_strength = None, slope = None\<rparr>
                | Some t \<Rightarrow> t);
          a0 = \<lparr>invoked = [], logged = [], escaped = None\<rparr>;
          a1 = (if trend_direction tr = Some ''decreasing''
                   \<and> (case trend_strength tr of None \<Rightarrow> 0 | Some s \<Rightarrow> s) > 0.5
                then a0\<lparr>invoked := [Address_decreasing_performance tr],
                        escaped := h (Address_decreasing_performance tr)\<rparr>
                else a0)
      in if escaped a1 \<noteq> None then a1
         else
           let anoms = (case anomalies analysis of None \<Rightarrow> [] | Some xs \<Rightarrow> xs);
               summary = (case performance_summary analysis of None \<Rightarrow> [] | Some s \<Rightarrow> s);
               a2 = (if list_ex py_truthy anoms
                     then a1\<lparr>invoked := invoked a1 @ [Address_anomalies summary anoms],
                             escaped := h (Address_anomalies summary anoms)\<rparr>
                     else a1)
           in if escaped a2 \<noteq> None then a2
              else improvements_loop h
                     (case areas_for_improvement analysis of None \<Rightarrow> [] | Some xs \<Rightarrow> xs)
                     a2)"

text \<open>
  The dict that \<open>analyze_performance\<close> of self_reflection.py returns has none of the
  keys that \<open>act_on_insights\<close> reads.
\<close>

definition insights_of :: "perf_analysis \<Rightarrow> insights" where
  "insights_of p = \<lparr>trend_analysis = None, anomalies = None, performance_summary = None,
                     areas_for_improvement = None\<rparr>"

text \<open>
  \<open>perform_self_reflection\<close>: every exception is caught and logged, and nothing of the
  state modelled here changes; the result is what \<open>act_on_insights\<close> did.
\<close>

definition perform_self_reflection :: "(hcall \<Rightarrow> exn option) \<Rightarrow> ai_core \<Rightarrow> acted" where
  "perform_self_reflection h c =
     act_on_insights h (insights_of (analyze_performance (self_reflection c)))"

subsection \<open>The main loop\<close>

text \<open>
  \<open>start\<close> runs \<open>while self.running: execute_task_cycle(); perform_self_reflection();
  wait(60)\<close>, and \<open>wait\<close> runs \<open>while get_time_difference(start_time, end_time) <
  seconds: end_time = get_timestamp()\<close>. \<open>stop\<close> is called from outside while the loop
  runs, so the loop is modelled by its steps: the program counter tells where the thread
  of \<open>start\<close> stands, and a schedule interleaves its steps with calls of \<open>stop\<close>. The
  flag \<open>running\<close> is read at the loop test only, so a finer interleaving adds nothing.
  The reflection step changes nothing of the state modelled here. In the model neither
  the cycle nor the reflection nor the wait raises, so the two \<open>except\<close> branches of
  the loop are never entered.
\<close>

datatype pc =
    At_loop_test
  | At_execute
  | At_reflect
  | At_wait int
  | In_wait int int int
  | Returned

record loop_thread =
  core :: ai_core
  pc :: pc

definition start :: "ai_core \<Rightarrow> loop_thread" where
  "start c = \<lparr>core = c\<lparr>running := True\<rparr>, pc = At_loop_test\<rparr>"

definition stop :: "ai_core \<Rightarrow> ai_core" where
  "stop c = c\<lparr>running := False\<rparr>"

text \<open>
  One step of the thread of \<open>start\<close>. \<open>In_wait seconds start_time end_time\<close> stands at
  the test of the loop of \<open>wait\<close>.
\<close>

definition loop_step :: "(nat \<Rightarrow> int) \<Rightarrow> loop_thread \<Rightarrow> loop_thread" where
  "loop_step clock t =
     (case pc t of
        At_loop_test \<Rightarrow> if running (core t) then t\<lparr>pc := At_execute\<rparr> else t\<lparr>pc := Returned\<rparr>
      | At_execute \<Rightarrow> t\<lparr>core := execute_task_cycle clock (core t), pc := At_reflect\<rparr>
      | At_reflect \<Rightarrow> t\<lparr>pc := At_wait 60\<rparr>
      | At_wait seconds \<Rightarrow>
          (let (start_time, c1) = get_timestamp clock (core t);
               (end_time, c2) = get_timestamp clock c1
           in t\<lparr>core := c2, pc := In_wait seconds start_time end_time\<rparr>)
      | In_wait seconds start_time end_time \<Rightarrow>
          if get_time_difference start_time end_time < real_of_int seconds
          then (let (end_time', c1) = get_timestamp clock (core t)
                in t\<lparr>core := c1, pc := In_wait seconds start_time end_time'\<rparr>)
          else t\<lparr>pc := At_loop_test\<rparr>
      | Returned \<Rightarrow> t)"

text \<open>A schedule: the loop thread takes a step, or another thread calls \<open>stop()\<close>.\<close>

datatype event = Loop_step | Stop_call

fun run :: "(nat \<Rightarrow> int) \<Rightarrow> event list \<Rightarrow> loop_thread \<Rightarrow> loop_thread" where
  "run clock [] t = t"
| "run clock (Loop_step # evs) t = run clock evs (loop_step clock t)"
| "run clock (Stop_call # evs) t = run clock evs (t\<lparr>core := stop (core t)\<rparr>)"

subsection \<open>Sample inputs\<close>

text \<open>
  The handlers of the source with a trend handler that raises in their place, a clock
  that advances twenty seconds from one reading to the next, and a core whose registry
  lists the one capability \<open>m.f\<close>.
\<close>

definition trend_handler_raises :: "hcall \<Rightarrow> exn option" where
  "trend_handler_raises c =
     (case c of
        Address_decreasing_performance t \<Rightarrow> Some HandlerError
      | _ \<Rightarrow> source_handlers c)"

definition clock20 :: "nat \<Rightarrow> int" where
  "clock20 n = 20 * int n"

definition sample_core :: ai_core where
  "sample_core =
     \<lparr>capability_registry =
        \<lparr>capability_loader = [(''m.f'', returns (VStr ''ok''))],
         capabilities = [(''m.f'', \<lparr>description = VStr ''d'', func = returns (VStr ''ok'')\<rparr>)]\<rparr>,
      self_reflection = \<lparr>performance_logs = [], project_management_logs = []\<rparr>,
      running = True, performance_data = [], clock_reads = 0\<rparr>"
section \<open>Properties of capability_loader.py\<close>

lemma register_items_other:
  "startswith n ''__'' \<or> (\<forall>h. (n, Callable h) \<notin> set ns) \<Longrightarrow>
   map_of (register_items m ns caps) (m @ ''.'' @ n) = map_of caps (m @ ''.'' @ n)"
proof (induction m ns caps rule: register_items.induct)
  case (1 m caps)
  then show ?case by simp
next
  case (2 m item_name h rest caps)
  then show ?case by (auto simp: AList.update_conv')
next
  case (3 m item_name v rest caps)
  then show ?case by auto
qed

lemma register_items_registered:
  "distinct (map fst ns) \<Longrightarrow> (n, Callable h) \<in> set ns \<Longrightarrow> \<not> startswith n ''__'' \<Longrightarrow>
   map_of (register_items m ns caps) (m @ ''.'' @ n) = Some h"
proof (induction m ns caps rule: register_items.induct)
  case (1 m caps)
  then show ?case by simp
next
  case (2 m item_name h' rest caps)
  show ?case
  proof (cases "item_name = n")
    case True
    with 2 have hh: "h' = h" and notin: "\<forall>k. (n, Callable k) \<notin> set rest"
      by (auto simp: image_iff)
    from notin
    have "map_of (register_items m rest (AList.update (m @ ''.'' @ n) h caps)) (m @ ''.'' @ n)
            = map_of (AList.update (m @ ''.'' @ n) h caps) (m @ ''.'' @ n)"
      using register_items_other by blast
    then show ?thesis using True hh 2(5) by (simp add: AList.update_conv')
  next
    case False
    with 2 show ?thesis by auto
  qed
next
  case (3 m item_name v rest caps)
  then show ?case by auto
qed

lemma register_items_keys:
  "fst ` set (register_items m ns caps) =
     fst ` set caps \<union>
     {m @ ''.'' @ n | n h. (n, Callable h) \<in> set ns \<and> \<not> startswith n ''__''}"
proof (induction m ns caps rule: register_items.induct)
  case (1 m caps)
  then show ?case by simp
next
  case (2 m item_name h rest caps)
  then show ?case by (auto simp: AList.dom_update)
next
  case (3 m item_name v rest caps)
  then show ?case by auto
qed

text \<open>
  C8, as the claim states it: a callable whose name has a leading underscore is
  excluded. It fails for a single underscore: the callable \<open>_helper\<close> of the unit
  \<open>unit\<close> is registered as \<open>unit._helper\<close>.
\<close>

theorem single_underscore_is_registered:
  "load_capability_module ''unit'' (Some [(''_helper'', Callable (returns VNone))]) []
     = Inr [(''unit._helper'', returns VNone)]"
  by (simp add: load_capability_module_def startswith_def)

text \<open>
  C8, amended. For a unit that imports, with the names of \<open>dir(module)\<close> distinct: every
  callable whose name does not start with two underscores is registered under
  \<open>"<unit>.<symbol>"\<close> with its own function; no name that starts with two underscores is
  registered by the call (its qualified key keeps what it held before); and the keys
  added are exactly the qualified names of the accepted callables.
\<close>

theorem load_capability_module_registers:
  assumes "distinct (map fst ns)"
  shows "\<exists>caps'. load_capability_module m (Some ns) caps = Inr caps'
           \<and> (\<forall>n h. (n, Callable h) \<in> set ns \<longrightarrow> \<not> startswith n ''__''
                  \<longrightarrow> map_of caps' (m @ ''.'' @ n) = Some h)
           \<and> (\<forall>n. startswith n ''__''
                  \<longrightarrow> map_of caps' (m @ ''.'' @ n) = map_of caps (m @ ''.'' @ n))
           \<and> fst ` set caps' =
               fst ` set caps \<union>
               {m @ ''.'' @ n | n h. (n, Callable h) \<in> set ns \<and> \<not> startswith n ''__''}"
proof -
  let ?caps' = "register_items m ns caps"
  have "load_capability_module m (Some ns) caps = Inr ?caps'"
    by (simp add: load_capability_module_def)
  moreover have "\<forall>n h. (n, Callable h) \<in> set ns \<longrightarrow> \<not> startswith n ''__''
                  \<longrightarrow> map_of ?caps' (m @ ''.'' @ n) = Some h"
    using assms register_items_registered by blast
  moreover have "\<forall>n. startswith n ''__''
                  \<longrightarrow> map_of ?caps' (m @ ''.'' @ n) = map_of caps (m @ ''.'' @ n)"
    using register_items_other by blast
  ultimately show ?thesis
    using register_items_keys by blast
qed

theorem load_capability_module_registers_witness:
  "distinct (map fst [(''greet'', Callable (returns (VStr ''hi''))),
                      (''_helper'', Callable (returns VNone)),
                      (''__init__'', Callable (returns VNone)),
                      (''limit'', Plain (VInt 3))])
   \<and> (\<exists>caps'. load_capability_module ''unit''
          (Some [(''greet'', Callable (returns (VStr ''hi''))),
                 (''_helper'', Callable (returns VNone)),
                 (''__init__'', Callable (returns VNone)),
                 (''limit'', Plain (VInt 3))]) [] = Inr caps'
        \<and> map_of caps' ''unit.greet'' = Some (returns (VStr ''hi''))
        \<and> map_of caps' ''unit._helper'' = Some (returns VNone)
        \<and> map_of caps' ''unit.__init__'' = None
        \<and> fst ` set caps' = {''unit.greet'', ''unit._helper''})"
proof -
  let ?ns = "[(''greet'', Callable (returns (VStr ''hi''))),
              (''_helper'', Callable (returns VNone)),
              (''__init__'', Callable (returns VNone)),
              (''limit'', Plain (VInt 3))]"
  have d: "distinct (map fst ?ns)" by simp
  from load_capability_module_registers [OF d, of "''unit''" "[]"]
  obtain caps' where
    l: "load_capability_module ''unit'' (Some ?ns) [] = Inr caps'" and
    r: "\<forall>n h. (n, Callable h) \<in> set ?ns \<longrightarrow> \<not> startswith n ''__''
           \<longrightarrow> map_of caps' (''unit'' @ ''.'' @ n) = Some h" and
    x: "\<forall>n. startswith n ''__''
           \<longrightarrow> map_of caps' (''unit'' @ ''.'' @ n) = map_of [] (''unit'' @ ''.'' @ n)"
    by blast
  have k: "fst ` set caps' = {''unit.greet'', ''unit._helper''}"
    using l by (auto simp: load_capability_module_def startswith_def)
  have "map_of caps' (''unit'' @ ''.'' @ ''greet'') = Some (returns (VStr ''hi''))"
    using r by (simp add: startswith_def)
  moreover have "map_of caps' (''unit'' @ ''.'' @ ''_helper'') = Some (returns VNone)"
    using r by (simp add: startswith_def)
  moreover have "map_of caps' (''unit'' @ ''.'' @ ''__init__'') = None"
    using x by (simp add: startswith_def)
  ultimately show ?thesis using d l k by simp
qed

section \<open>Properties of data_persistence.py\<close>

lemma load_loop_acc:
  "load_loop files acc = (case load_loop files [] of Inl x \<Rightarrow> Inl x | Inr r \<Rightarrow> Inr (acc @ r))"
proof (induction files arbitrary: acc)
  case Nil
  then show ?case by simp
next
  case (Cons fc files)
  obtain f c where fc: "fc = (f, c)" by (cases fc)
  have step: "\<And>v. load_loop files (acc @ [v]) =
      (case load_loop files [v] of Inl x \<Rightarrow> Inl x | Inr r \<Rightarrow> Inr (acc @ r))"
  proof -
    fix v
    show "load_loop files (acc @ [v]) =
      (case load_loop files [v] of Inl x \<Rightarrow> Inl x | Inr r \<Rightarrow> Inr (acc @ r))"
      using Cons.IH [of "acc @ [v]"] Cons.IH [of "[v]"]
      by (auto split: sum.splits)
  qed
  show ?case
    unfolding fc
    using Cons.IH [of acc] step
    by (auto split: option.splits sum.splits simp: )
qed

lemma load_loop_append:
  "load_loop (xs @ ys) acc =
     (case load_loop xs acc of Inl x \<Rightarrow> Inl x | Inr a \<Rightarrow> load_loop ys a)"
  by (induction xs arbitrary: acc) (auto split: option.splits sum.splits)

lemma load_loop_skip:
  "map_of items ''version'' \<noteq> Some (VStr DATA_VERSION) \<Longrightarrow>
   load_loop ((f, Some (VDict items)) # ys) acc = load_loop ys acc"
  by (auto simp: is_compatible_version_def split: option.splits)

lemma load_loop_take:
  "map_of items ''version'' = Some (VStr DATA_VERSION) \<Longrightarrow>
   startswith f ''performance_'' \<and> endswith f ''.json'' \<Longrightarrow>
   load_loop ((f, Some (VDict items)) # ys) acc =
     load_loop ys (acc @ [case map_of items ''performance_data'' of None \<Rightarrow> VDict [] | Some v \<Rightarrow> v])"
  by (auto simp: is_compatible_version_def split: option.splits)

text \<open>
  C9. A snapshot (a JSON object) whose \<open>version\<close> is absent or differs from
  \<open>DATA_VERSION\<close> is skipped wherever it stands in the directory listing: the load
  gives what it gives without the file, so the mismatch raises nothing and contributes no
  entry. A performance snapshot with the matching version contributes its
  \<open>performance_data\<close> (or \<open>{}\<close>) at its place in the listing.
\<close>

theorem load_performance_data_version_skip:
  "(map_of items ''version'' \<noteq> Some (VStr DATA_VERSION) \<longrightarrow>
      load_performance_data e (xs @ (f, Some (VDict items)) # ys) = load_performance_data e (xs @ ys))
 \<and> (map_of items ''version'' = Some (VStr DATA_VERSION)
      \<and> startswith f ''performance_'' \<and> endswith f ''.json''
      \<and> load_performance_data e xs = Inr r1 \<and> load_performance_data e ys = Inr r2 \<longrightarrow>
      load_performance_data e (xs @ (f, Some (VDict items)) # ys)
        = Inr (r1 @ [case map_of items ''performance_data'' of None \<Rightarrow> VDict [] | Some v \<Rightarrow> v] @ r2))"
proof (intro conjI impI)
  assume "map_of items ''version'' \<noteq> Some (VStr DATA_VERSION)"
  then show "load_performance_data e (xs @ (f, Some (VDict items)) # ys) = load_performance_data e (xs @ ys)"
    by (auto simp add: load_performance_data_def load_loop_append load_loop_skip
          simp del: load_loop.simps split: sum.splits)
next
  assume a: "map_of items ''version'' = Some (VStr DATA_VERSION)
      \<and> startswith f ''performance_'' \<and> endswith f ''.json''
      \<and> load_performance_data e xs = Inr r1 \<and> load_performance_data e ys = Inr r2"
  then have m: "mkdir_ok e" and x: "load_loop xs [] = Inr r1" and y: "load_loop ys [] = Inr r2"
    by (auto simp: load_performance_data_def split: if_splits sum.splits)
  let ?p = "case map_of items ''performance_data'' of None \<Rightarrow> VDict [] | Some v \<Rightarrow> v"
  have "load_loop (xs @ (f, Some (VDict items)) # ys) [] = load_loop ys (r1 @ [?p])"
    using a x by (simp add: load_loop_append load_loop_take del: load_loop.simps)
  also have "\<dots> = Inr ((r1 @ [?p]) @ r2)"
    using y load_loop_acc [of ys "r1 @ [?p]"] by simp
  finally show "load_performance_data e (xs @ (f, Some (VDict items)) # ys) = Inr (r1 @ [?p] @ r2)"
    using m by (simp add: load_performance_data_def)
qed

theorem load_performance_data_version_skip_witness:
  "map_of [(''version'', VStr ''2.0''), (''performance_data'', VInt 2)] ''version''
     \<noteq> Some (VStr DATA_VERSION)
   \<and> load_performance_data \<lparr>now = ''t'', mkdir_ok = True, write_ok = True, fails_after_open = False\<rparr>
       ([(''performance_a.json'',
            Some (VDict [(''version'', VStr ''1.0''), (''performance_data'', VInt 1)]))] @
        (''performance_b.json'',
            Some (VDict [(''version'', VStr ''2.0''), (''performance_data'', VInt 2)])) #
        [(''performance_c.json'',
            Some (VDict [(''version'', VStr ''1.0''), (''performance_data'', VInt 3)]))])
       = Inr [VInt 1, VInt 3]
   \<and> map_of [(''version'', VStr ''1.0''), (''performance_data'', VInt 5)] ''version''
       = Some (VStr DATA_VERSION)
   \<and> load_performance_data \<lparr>now = ''t'', mkdir_ok = True, write_ok = True, fails_after_open = False\<rparr>
       ([(''performance_a.json'',
            Some (VDict [(''version'', VStr ''1.0''), (''performance_data'', VInt 1)]))] @
        (''performance_b.json'',
            Some (VDict [(''version'', VStr ''1.0''), (''performance_data'', VInt 5)])) #
        [(''performance_c.json'',
            Some (VDict [(''version'', VStr ''1.0''), (''performance_data'', VInt 3)]))])
       = Inr [VInt 1, VInt 5, VInt 3]"
proof -
  let ?e = "\<lparr>now = ''t'', mkdir_ok = True, write_ok = True, fails_after_open = False\<rparr>"
  let ?xs = "[(''performance_a.json'',
                Some (VDict [(''version'', VStr ''1.0''), (''performance_data'', VInt 1)]))]"
  let ?ys = "[(''performance_c.json'',
                Some (VDict [(''version'', VStr ''1.0''), (''performance_data'', VInt 3)]))]"
  have xs: "load_performance_data ?e ?xs = Inr [VInt 1]"
    by (simp add: load_performance_data_def is_compatible_version_def DATA_VERSION_def
        startswith_def endswith_def)
  have ys: "load_performance_data ?e ?ys = Inr [VInt 3]"
    by (simp add: load_performance_data_def is_compatible_version_def DATA_VERSION_def
        startswith_def endswith_def)
  have xy: "load_performance_data ?e (?xs @ ?ys) = Inr [VInt 1, VInt 3]"
    by (simp add: load_performance_data_def is_compatible_version_def DATA_VERSION_def
        startswith_def endswith_def)
  have b: "startswith ''performance_b.json'' ''performance_'' \<and> endswith ''performance_b.json'' ''.json''"
    by (simp add: startswith_def endswith_def)
  show ?thesis
    using xs ys xy b
      load_performance_data_version_skip
        [of "[(''version'', VStr ''2.0''), (''performance_data'', VInt 2)]"
            ?e ?xs "''performance_b.json''" ?ys]
      load_performance_data_version_skip
        [of "[(''version'', VStr ''1.0''), (''performance_data'', VInt 5)]"
            ?e ?xs "''performance_b.json''" ?ys "[VInt 1]" "[VInt 3]"]
    by (simp add: DATA_VERSION_def)
qed

section \<open>Properties of capability_registry.py\<close>

lemma update_fresh: "map_of al k = None \<Longrightarrow> AList.update k v al = al @ [(k, v)]"
  by (induction al) (auto split: if_splits)

lemma save_capabilities_cases:
  "save_capabilities reg e files =
     (if mkdir_ok e \<and> write_ok e
      then (Inr (),
            AList.update (''performance_'' @ now e @ ''.json'')
              (Some (VDict [(''version'', VStr DATA_VERSION),
                 (''performance_data'',
                  VList (map (\<lambda>(name, info).
                     VDict [(''type'', VStr ''capability''), (''name'', VStr name),
                            (''description'', description info)]) (capabilities reg)))]))
              files)
      else (Inl DataPersistenceError,
            if mkdir_ok e \<and> fails_after_open e
            then AList.update (''performance_'' @ now e @ ''.json'') None files
            else files))"
  by (simp add: save_capabilities_def save_performance_data_def Let_def)

lemma map_of_None_keys: "(map_of al k = None) = (k \<notin> fst ` set al)"
  by (simp add: map_of_eq_None_iff)

lemma add_capability_cases:
  "add_capability name descr e (reg, files) =
     (if strip name = [] \<or> map_of (capabilities reg) name \<noteq> None
      then (Inl CapabilityError, reg, files)
      else case map_of (capability_loader reg) name of
             None \<Rightarrow> (Inl CapabilityError, reg, files)
           | Some f \<Rightarrow>
               if \<not> truthy f then (Inl CapabilityError, reg, files)
               else (if mkdir_ok e \<and> write_ok e then Inr () else Inl CapabilityError,
                     reg\<lparr>capabilities :=
                       capabilities reg @ [(name, \<lparr>description = VStr descr, func = f\<rparr>)]\<rparr>,
                     snd (save_capabilities
                       (reg\<lparr>capabilities :=
                          capabilities reg @ [(name, \<lparr>description = VStr descr, func = f\<rparr>)]\<rparr>)
                       e files)))"
  by (auto simp: add_capability_def loader_get_capability_def update_fresh Let_def
      save_capabilities_cases split: option.splits)

lemma add_capability_distinct:
  assumes "add_capability name descr e (reg, files) = (r, reg', files')"
    and "distinct (map fst (capabilities reg))"
  shows "distinct (map fst (capabilities reg'))"
  using assms
  by (auto simp: add_capability_cases map_of_None_keys split: option.splits if_splits)

lemma add_capability_names:
  assumes "add_capability name descr e (reg, files) = (r, reg', files')"
    and "mkdir_ok e \<and> write_ok e"
  shows "fst ` set (capabilities reg') =
           (if r = Inr () then insert name (fst ` set (capabilities reg))
            else fst ` set (capabilities reg))"
  using assms
  by (auto simp: add_capability_cases split: option.splits if_splits)

lemma remove_capability_cases:
  "remove_capability name e (reg, files) =
     (if map_of (capabilities reg) name = None then (Inr False, reg, files)
      else (if mkdir_ok e \<and> write_ok e then Inr True else Inl CapabilityError,
            reg\<lparr>capabilities := AList.delete name (capabilities reg)\<rparr>,
            snd (save_capabilities
                   (reg\<lparr>capabilities := AList.delete name (capabilities reg)\<rparr>) e files)))"
  by (auto simp: remove_capability_def Let_def save_capabilities_cases)

lemma remove_capability_distinct:
  assumes "remove_capability name e (reg, files) = (r, reg', files')"
    and "distinct (map fst (capabilities reg))"
  shows "distinct (map fst (capabilities reg'))"
  using assms
  by (auto simp: remove_capability_cases AList.distinct_delete split: if_splits)

lemma delete_key_set: "fst ` set (AList.delete k al) = fst ` set al - {k}"
  by (auto simp: AList.delete_eq image_iff)

lemma remove_capability_names:
  assumes "remove_capability name e (reg, files) = (r, reg', files')"
    and "mkdir_ok e \<and> write_ok e"
  shows "fst ` set (capabilities reg') =
           (if r = Inr True then fst ` set (capabilities reg) - {name}
            else fst ` set (capabilities reg))"
  using assms
  by (clarsimp simp: remove_capability_cases delete_key_set map_of_None_keys split: if_splits)

lemma run_ops_distinct:
  "run_ops ops (reg, files) = (rs, reg', files') \<Longrightarrow>
   distinct (map fst (capabilities reg)) \<Longrightarrow> distinct (map fst (capabilities reg'))"
proof (induction ops arbitrary: reg files rs)
  case Nil
  then show ?case by simp
next
  case (Cons oe ops)
  obtain o1 e where oe: "oe = (o1, e)" by (cases oe)
  obtain r reg1 files1 where st: "apply_op o1 e (reg, files) = (r, reg1, files1)"
    by (cases "apply_op o1 e (reg, files)")
  obtain rs1 where rest: "run_ops ops (reg1, files1) = (rs1, reg', files')"
    using Cons.prems(1) oe st by (auto split: prod.splits)
  have "distinct (map fst (capabilities reg1))"
  proof (cases o1)
    case (Add name descr)
    then show ?thesis
      using st Cons.prems(2) add_capability_distinct [of name descr e reg files _ reg1 files1]
      by (auto split: prod.splits sum.splits)
  next
    case (Remove name)
    then show ?thesis
      using st Cons.prems(2) remove_capability_distinct [of name e reg files _ reg1 files1]
      by (auto split: prod.splits sum.splits)
  qed
  then show ?case using Cons.IH [OF rest] by simp
qed

lemma apply_op_names:
  assumes "apply_op o1 e (reg, files) = (r, reg1, files1)" and "mkdir_ok e \<and> write_ok e"
  shows "expected_names ((o1, r) # rest) (fst ` set (capabilities reg))
           = expected_names rest (fst ` set (capabilities reg1))"
proof (cases o1)
  case (Add name descr)
  then show ?thesis
    using assms add_capability_names [of name descr e reg files _ reg1 files1]
    by (auto split: prod.splits sum.splits)
next
  case (Remove name)
  then show ?thesis
    using assms remove_capability_names [of name e reg files _ reg1 files1]
    by (auto split: prod.splits sum.splits)
qed

lemma run_ops_names:
  "run_ops ops (reg, files) = (rs, reg', files') \<Longrightarrow>
   list_all (\<lambda>e. mkdir_ok e \<and> write_ok e) (map snd ops) \<Longrightarrow>
   fst ` set (capabilities reg') = expected_names (zip (map fst ops) rs) (fst ` set (capabilities reg))"
proof (induction ops arbitrary: reg files rs)
  case Nil
  then show ?case by simp
next
  case (Cons oe ops)
  obtain o1 e where oe: "oe = (o1, e)" by (cases oe)
  obtain r reg1 files1 where st: "apply_op o1 e (reg, files) = (r, reg1, files1)"
    by (cases "apply_op o1 e (reg, files)")
  obtain rs1 where rest: "run_ops ops (reg1, files1) = (rs1, reg', files')" and rs: "rs = r # rs1"
    using Cons.prems(1) oe st by (auto split: prod.splits)
  have ok: "mkdir_ok e \<and> write_ok e" and oks: "list_all (\<lambda>e. mkdir_ok e \<and> write_ok e) (map snd ops)"
    using Cons.prems(2) oe by auto
  show ?case
    using Cons.IH [OF rest oks] apply_op_names [OF st ok] oe rs by simp
qed

lemma list_capabilities_keys:
  "map fst (list_capabilities reg) = map fst (capabilities reg)"
  by (simp add: list_capabilities_def case_prod_unfold comp_def)

lemma list_capabilities_key_set:
  "fst ` set (list_capabilities reg) = fst ` set (capabilities reg)"
  using list_capabilities_keys [of reg] by (metis list.set_map)

lemma one_entry_per_key:
  "distinct (map fst xs) \<Longrightarrow> k \<in> fst ` set xs \<Longrightarrow> length (filter (\<lambda>p. fst p = k) xs) = 1"
proof (induction xs)
  case Nil
  then show ?case by simp
next
  case (Cons x xs)
  show ?case
  proof (cases "fst x = k")
    case True
    then have "k \<notin> fst ` set xs" using Cons.prems(1) by auto
    then have "filter (\<lambda>p. fst p = k) xs = []" by (auto simp: filter_empty_conv)
    then show ?thesis using True by simp
  next
    case False
    then show ?thesis using Cons by auto
  qed
qed

text \<open>
  C1, as the claim states it: a failing add leaves the catalog unchanged. It fails when
  the persistence write fails: the entry is stored in the catalog before
  \<open>_save_capabilities\<close> runs and nothing takes it out again. Here the loader knows
  \<open>m.f\<close>, the catalog is empty and the file cannot be written: the add raises
  CapabilityError and the catalog holds \<open>m.f\<close>.
\<close>

theorem add_capability_persistence_failure_keeps_entry:
  "add_capability ''m.f'' ''d''
     \<lparr>now = ''t'', mkdir_ok = True, write_ok = False, fails_after_open = False\<rparr>
     (\<lparr>capability_loader = [(''m.f'', returns VNone)], capabilities = []\<rparr>, [])
   = (Inl CapabilityError,
      \<lparr>capability_loader = [(''m.f'', returns VNone)],
       capabilities = [(''m.f'', \<lparr>description = VStr ''d'', func = returns VNone\<rparr>)]\<rparr>,
      [])
   \<and> list_capabilities
       \<lparr>capability_loader = [(''m.f'', returns VNone)],
        capabilities = [(''m.f'', \<lparr>description = VStr ''d'', func = returns VNone\<rparr>)]\<rparr>
     \<noteq> list_capabilities \<lparr>capability_loader = [(''m.f'', returns VNone)], capabilities = []\<rparr>"
  by (simp add: add_capability_cases save_capabilities_cases strip_def isspace_def returns_def
      list_capabilities_def)

text \<open>
  C1, amended. An add that fails at validation (the name is empty or only white space,
  is already present, is unknown to the loader, or its function is falsy) raises
  CapabilityError and changes neither the catalog nor the files. An add that passes
  validation appends the entry to the catalog. Then, if the write succeeds, the add
  succeeds and the snapshot file of that second holds version 1.0 and one capability
  record (type, name, description) for every entry of the updated catalog, in order,
  the new one last. If the write fails, the add raises CapabilityError and the catalog
  keeps the new entry; the files are untouched when the failure comes before the file
  is opened, and the snapshot file of that second is left unreadable when it comes
  after.
\<close>

theorem add_capability_outcomes:
  assumes "add_capability name descr e (reg, files) = (r, reg', files')"
  shows "if strip name = [] \<or> map_of (capabilities reg) name \<noteq> None
            \<or> (case map_of (capability_loader reg) name of
                  None \<Rightarrow> True | Some f \<Rightarrow> \<not> truthy f)
         then r = Inl CapabilityError \<and> reg' = reg \<and> files' = files
         else (\<exists>f. map_of (capability_loader reg) name = Some f
                \<and> reg' = reg\<lparr>capabilities :=
                      capabilities reg @ [(name, \<lparr>description = VStr descr, func = f\<rparr>)]\<rparr>)
              \<and> (if mkdir_ok e \<and> write_ok e
                  then r = Inr ()
                     \<and> files' =
                         AList.update (''performance_'' @ now e @ ''.json'')
                           (Some (VDict
                              [(''version'', VStr ''1.0''),
                               (''performance_data'',
                                VList (map (\<lambda>(n, info).
                                          VDict [(''type'', VStr ''capability''),
                                                 (''name'', VStr n),
                                                 (''description'', description info)])
                                        (capabilities reg)
                                       @ [VDict [(''type'', VStr ''capability''),
                                                 (''name'', VStr name),
                                                 (''description'', VStr descr)]]))]))
                           files
                  else r = Inl CapabilityError
                     \<and> files' =
                         (if mkdir_ok e \<and> fails_after_open e
                          then AList.update (''performance_'' @ now e @ ''.json'') None files
                          else files))"
  using assms
  by (auto simp: add_capability_cases save_capabilities_cases DATA_VERSION_def
      split: option.splits if_splits)

theorem add_capability_outcomes_witness:
  "add_capability ''m.f'' ''again''
     \<lparr>now = ''t'', mkdir_ok = True, write_ok = True, fails_after_open = False\<rparr>
     (\<lparr>capability_loader = [(''m.f'', returns VNone)],
       capabilities = [(''m.f'', \<lparr>description = VStr ''d'', func = returns VNone\<rparr>)]\<rparr>, [])
   = (Inl CapabilityError,
      \<lparr>capability_loader = [(''m.f'', returns VNone)],
       capabilities = [(''m.f'', \<lparr>description = VStr ''d'', func = returns VNone\<rparr>)]\<rparr>, [])
   \<and> add_capability ''m.f'' ''d''
       \<lparr>now = ''t'', mkdir_ok = True, write_ok = True, fails_after_open = False\<rparr>
       (\<lparr>capability_loader = [(''m.f'', returns VNone)], capabilities = []\<rparr>, [])
     = (Inr (),
        \<lparr>capability_loader = [(''m.f'', returns VNone)],
         capabilities = [(''m.f'', \<lparr>description = VStr ''d'', func = returns VNone\<rparr>)]\<rparr>,
        [(''performance_t.json'',
          Some (VDict [(''version'', VStr ''1.0''),
                       (''performance_data'',
                        VList [VDict [(''type'', VStr ''capability''),
                                      (''name'', VStr ''m.f''),
                                      (''description'', VStr ''d'')]])]))])
   \<and> add_capability ''m.f'' ''d''
       \<lparr>now = ''t'', mkdir_ok = True, write_ok = False, fails_after_open = True\<rparr>
       (\<lparr>capability_loader = [(''m.f'', returns VNone)], capabilities = []\<rparr>, [])
     = (Inl CapabilityError,
        \<lparr>capability_loader = [(''m.f'', returns VNone)],
         capabilities = [(''m.f'', \<lparr>description = VStr ''d'', func = returns VNone\<rparr>)]\<rparr>,
        [(''performance_t.json'', None)])"
proof -
  let ?ok = "\<lparr>now = ''t'', mkdir_ok = True, write_ok = True, fails_after_open = False\<rparr>"
  let ?cut = "\<lparr>now = ''t'', mkdir_ok = True, write_ok = False, fails_after_open = True\<rparr>"
  let ?full = "\<lparr>capability_loader = [(''m.f'', returns VNone)],
       capabilities = [(''m.f'', \<lparr>description = VStr ''d'', func = returns VNone\<rparr>)]\<rparr>"
  let ?empty = "\<lparr>capability_loader = [(''m.f'', returns VNone)], capabilities = []\<rparr>"
  have v: "strip ''m.f'' \<noteq> []" and t: "truthy (returns VNone)"
    by (simp_all add: strip_def isspace_def returns_def)
  obtain r1 reg1 files1 where
    a: "add_capability ''m.f'' ''again'' ?ok (?full, []) = (r1, reg1, files1)"
    by (cases "add_capability ''m.f'' ''again'' ?ok (?full, [])")
  obtain r2 reg2 files2 where
    b: "add_capability ''m.f'' ''d'' ?ok (?empty, []) = (r2, reg2, files2)"
    by (cases "add_capability ''m.f'' ''d'' ?ok (?empty, [])")
  obtain r3 reg3 files3 where
    c: "add_capability ''m.f'' ''d'' ?cut (?empty, []) = (r3, reg3, files3)"
    by (cases "add_capability ''m.f'' ''d'' ?cut (?empty, [])")
  have 1: "r1 = Inl CapabilityError \<and> reg1 = ?full \<and> files1 = []"
    using add_capability_outcomes [OF a] by simp
  have 2: "r2 = Inr () \<and> reg2 = ?full
           \<and> files2 = [(''performance_t.json'',
                 Some (VDict [(''version'', VStr ''1.0''),
                       (''performance_data'',
                        VList [VDict [(''type'', VStr ''capability''),
                                      (''name'', VStr ''m.f''),
                                      (''description'', VStr ''d'')]])]))]"
    using add_capability_outcomes [OF b] v t by simp
  have 3: "r3 = Inl CapabilityError \<and> reg3 = ?full \<and> files3 = [(''performance_t.json'', None)]"
    using add_capability_outcomes [OF c] v t by simp
  show ?thesis using a b c 1 2 3 by simp
qed

text \<open>
  C3. The claim: saving a catalog and reloading it gives the same name and description
  pairs. The code saves the whole list of records as the \<open>performance_data\<close> of one
  snapshot, and \<open>load_performance_data\<close> returns one item per file, so the reloading
  loop meets the list itself where it expects a record: \<open>entry.get\<close> raises
  AttributeError and the constructor fails. This holds for every catalog saved into an
  empty directory, whatever the timestamp and the loader.
\<close>

theorem saved_catalog_fails_to_reload:
  "fst (save_capabilities reg
          \<lparr>now = ts, mkdir_ok = True, write_ok = True, fails_after_open = b\<rparr> []) = Inr ()
   \<and> registry_load_capabilities ld
        \<lparr>now = ts', mkdir_ok = True, write_ok = True, fails_after_open = b'\<rparr>
        (snd (save_capabilities reg
                \<lparr>now = ts, mkdir_ok = True, write_ok = True, fails_after_open = b\<rparr> []))
      = Inl AttributeError"
  by (simp add: save_capabilities_cases registry_load_capabilities_def
      load_performance_data_def is_compatible_version_def startswith_def endswith_def)

text \<open>
  C5, as the claim states it: \<open>list()\<close> shows exactly the names whose add succeeded and
  that were not removed since. It fails when a persistence write fails: the add of
  \<open>m.f\<close> raises CapabilityError, so no add has succeeded, and \<open>list()\<close> shows \<open>m.f\<close>.
\<close>

theorem failed_add_is_listed:
  "fst (run_ops [(Add ''m.f'' ''d'', \<lparr>now = ''t'', mkdir_ok = True, write_ok = False, fails_after_open = False\<rparr>)]
         (\<lparr>capability_loader = [(''m.f'', returns VNone)], capabilities = []\<rparr>, []))
     = [Inl CapabilityError]
   \<and> list_capabilities
       (fst (snd (run_ops [(Add ''m.f'' ''d'', \<lparr>now = ''t'', mkdir_ok = True, write_ok = False, fails_after_open = False\<rparr>)]
         (\<lparr>capability_loader = [(''m.f'', returns VNone)], capabilities = []\<rparr>, []))))
     = [(''m.f'', VStr ''d'')]
   \<and> expected_names [(Add ''m.f'' ''d'', Inl CapabilityError)] {} = {}"
  by (simp add: add_capability_cases strip_def isspace_def returns_def list_capabilities_def)

text \<open>
  C5, amended. After any sequence of add and remove calls from an empty catalog, the
  names that \<open>list()\<close> shows are distinct; an add of a name that is listed raises
  CapabilityError and changes nothing, and the list has exactly one entry under that
  name; and when no persistence write of the sequence fails, \<open>list()\<close> shows exactly the
  names whose add succeeded and that no later remove has removed.
\<close>

theorem catalog_integrity:
  assumes "run_ops ops (\<lparr>capability_loader = ld, capabilities = []\<rparr>, files) = (rs, reg, files')"
  shows "distinct (map fst (list_capabilities reg))
       \<and> (list_all (\<lambda>e. mkdir_ok e \<and> write_ok e) (map snd ops) \<longrightarrow>
            fst ` set (list_capabilities reg) = expected_names (zip (map fst ops) rs) {})
       \<and> (\<forall>name descr e. name \<in> fst ` set (list_capabilities reg) \<longrightarrow>
            add_capability name descr e (reg, files') = (Inl CapabilityError, reg, files')
            \<and> length (filter (\<lambda>p. fst p = name) (list_capabilities reg)) = 1)"
proof -
  have d: "distinct (map fst (list_capabilities reg))"
    using run_ops_distinct [OF assms] by (simp add: list_capabilities_keys)
  have n: "list_all (\<lambda>e. mkdir_ok e \<and> write_ok e) (map snd ops) \<longrightarrow>
            fst ` set (list_capabilities reg) = expected_names (zip (map fst ops) rs) {}"
    using run_ops_names [OF assms] by (simp add: list_capabilities_key_set)
  have dup: "\<forall>name descr e. name \<in> fst ` set (list_capabilities reg) \<longrightarrow>
            add_capability name descr e (reg, files') = (Inl CapabilityError, reg, files')
            \<and> length (filter (\<lambda>p. fst p = name) (list_capabilities reg)) = 1"
  proof (intro allI impI conjI)
    fix name descr e
    assume m: "name \<in> fst ` set (list_capabilities reg)"
    then have "name \<in> fst ` set (capabilities reg)"
      by (simp add: list_capabilities_key_set)
    then show "add_capability name descr e (reg, files') = (Inl CapabilityError, reg, files')"
      by (simp add: add_capability_cases map_of_None_keys)
    show "length (filter (\<lambda>p. fst p = name) (list_capabilities reg)) = 1"
      using one_entry_per_key [OF d m] .
  qed
  show ?thesis using d n dup by simp
qed


theorem catalog_integrity_witness:
  "list_all (\<lambda>e. mkdir_ok e \<and> write_ok e)
     (map snd [(Add ''m.f'' ''d'', \<lparr>now = ''t1'', mkdir_ok = True, write_ok = True, fails_after_open = False\<rparr>),
               (Add ''m.f'' ''again'', \<lparr>now = ''t2'', mkdir_ok = True, write_ok = True, fails_after_open = False\<rparr>),
               (Add ''m.g'' ''e'', \<lparr>now = ''t3'', mkdir_ok = True, write_ok = True, fails_after_open = False\<rparr>),
               (Remove ''m.g'', \<lparr>now = ''t4'', mkdir_ok = True, write_ok = True, fails_after_open = False\<rparr>),
               (Remove ''m.h'', \<lparr>now = ''t5'', mkdir_ok = True, write_ok = True, fails_after_open = False\<rparr>)])
   \<and> fst (run_ops
        [(Add ''m.f'' ''d'', \<lparr>now = ''t1'', mkdir_ok = True, write_ok = True, fails_after_open = False\<rparr>),
         (Add ''m.f'' ''again'', \<lparr>now = ''t2'', mkdir_ok = True, write_ok = True, fails_after_open = False\<rparr>),
         (Add ''m.g'' ''e'', \<lparr>now = ''t3'', mkdir_ok = True, write_ok = True, fails_after_open = False\<rparr>),
         (Remove ''m.g'', \<lparr>now = ''t4'', mkdir_ok = True, write_ok = True, fails_after_open = False\<rparr>),
         (Remove ''m.h'', \<lparr>now = ''t5'', mkdir_ok = True, write_ok = True, fails_after_open = False\<rparr>)]
        (\<lparr>capability_loader = [(''m.f'', returns VNone), (''m.g'', returns VNone)],
          capabilities = []\<rparr>, []))
      = [Inr VNone, Inl CapabilityError, Inr VNone, Inr (VBool True), Inr (VBool False)]
   \<and> list_capabilities (fst (snd (run_ops
        [(Add ''m.f'' ''d'', \<lparr>now = ''t1'', mkdir_ok = True, write_ok = True, fails_after_open = False\<rparr>),
         (Add ''m.f'' ''again'', \<lparr>now = ''t2'', mkdir_ok = True, write_ok = True, fails_after_open = False\<rparr>),
         (Add ''m.g'' ''e'', \<lparr>now = ''t3'', mkdir_ok = True, write_ok = True, fails_after_open = False\<rparr>),
         (Remove ''m.g'', \<lparr>now = ''t4'', mkdir_ok = True, write_ok = True, fails_after_open = False\<rparr>),
         (Remove ''m.h'', \<lparr>now = ''t5'', mkdir_ok = True, write_ok = True, fails_after_open = False\<rparr>)]
        (\<lparr>capability_loader = [(''m.f'', returns VNone), (''m.g'', returns VNone)],
          capabilities = []\<rparr>, []))))
      = [(''m.f'', VStr ''d'')]
   \<and> expected_names
        (zip (map fst
           [(Add ''m.f'' ''d'', \<lparr>now = ''t1'', mkdir_ok = True, write_ok = True, fails_after_open = False\<rparr>),
            (Add ''m.f'' ''again'', \<lparr>now = ''t2'', mkdir_ok = True, write_ok = True, fails_after_open = False\<rparr>),
            (Add ''m.g'' ''e'', \<lparr>now = ''t3'', mkdir_ok = True, write_ok = True, fails_after_open = False\<rparr>),
            (Remove ''m.g'', \<lparr>now = ''t4'', mkdir_ok = True, write_ok = True, fails_after_open = False\<rparr>),
            (Remove ''m.h'', \<lparr>now = ''t5'', mkdir_ok = True, write_ok = True, fails_after_open = False\<rparr>)])
           [Inr VNone, Inl CapabilityError, Inr VNone, Inr (VBool True), Inr (VBool False)]) {}
      = {''m.f''}"
proof -
  let ?ops = "[(Add ''m.f'' ''d'', \<lparr>now = ''t1'', mkdir_ok = True, write_ok = True, fails_after_open = False\<rparr>),
               (Add ''m.f'' ''again'', \<lparr>now = ''t2'', mkdir_ok = True, write_ok = True, fails_after_open = False\<rparr>),
               (Add ''m.g'' ''e'', \<lparr>now = ''t3'', mkdir_ok = True, write_ok = True, fails_after_open = False\<rparr>),
               (Remove ''m.g'', \<lparr>now = ''t4'', mkdir_ok = True, write_ok = True, fails_after_open = False\<rparr>),
               (Remove ''m.h'', \<lparr>now = ''t5'', mkdir_ok = True, write_ok = True, fails_after_open = False\<rparr>)]"
  let ?ld = "[(''m.f'', returns VNone), (''m.g'', returns VNone)]"
  have ok: "list_all (\<lambda>e. mkdir_ok e \<and> write_ok e) (map snd ?ops)" by simp
  have rs: "fst (run_ops ?ops (\<lparr>capability_loader = ?ld, capabilities = []\<rparr>, []))
      = [Inr VNone, Inl CapabilityError, Inr VNone, Inr (VBool True), Inr (VBool False)]"
    by (simp add: add_capability_cases remove_capability_cases strip_def isspace_def
        returns_def AList.delete_eq)
  obtain reg files' where
    run: "run_ops ?ops (\<lparr>capability_loader = ?ld, capabilities = []\<rparr>, [])
            = ([Inr VNone, Inl CapabilityError, Inr VNone, Inr (VBool True), Inr (VBool False)],
               reg, files')"
    using rs by (metis prod.collapse)
  have ex: "expected_names (zip (map fst ?ops)
              [Inr VNone, Inl CapabilityError, Inr VNone, Inr (VBool True), Inr (VBool False)]) {}
            = {''m.f''}"
    by simp
  have l: "list_capabilities
             (fst (snd (run_ops ?ops (\<lparr>capability_loader = ?ld, capabilities = []\<rparr>, []))))
           = [(''m.f'', VStr ''d'')]"
    by (simp add: add_capability_cases remove_capability_cases strip_def isspace_def
        returns_def AList.delete_eq list_capabilities_def)
  show ?thesis
    using catalog_integrity [OF run] ok rs run ex l by simp
qed

section \<open>Properties of self_reflection.py\<close>

text \<open>
  C4. The claim: \<open>log_performance\<close> rejects an empty capability name and a negative
  execution time with SelfReflectionError and leaves the history unchanged. The code has
  no such check: the call with the empty name and the execution time \<open>-1\<close> returns
  normally and the history ends with the malformed entry.
\<close>

theorem log_performance_appends_malformed_entry:
  "performance_logs
     (log_performance 0 [] (VStr ''result'') (- 1)
        \<lparr>performance_logs = [], project_management_logs = []\<rparr>)
   = [\<lparr>timestamp = 0, task_name = [], result = VStr ''result'', execution_time = - 1\<rparr>]"
  by (simp add: log_performance_def)

text \<open>
  C10. Whenever the project-management log list is empty, the project-management
  analysis is the no-data message, the completion-rate lookup on it gives the default 0,
  and \<open>suggest_improvements\<close> returns normally with the completion-rate suggestion
  among its results, whatever the capability performance history is.
\<close>

theorem suggest_improvements_empty_pm_logs:
  assumes "project_management_logs sr = []"
  shows "analyze_project_management_performance sr
           = Inr (Pm_message ''No project management data available.'')
       \<and> get_completion_rate (Pm_message ''No project management data available.'') 0 = 0
       \<and> (\<exists>s. suggest_improvements sr = Inr s
              \<and> ''Improve task completion rate in project management.'' \<in> set s)"
  using assms
  by (simp add: suggest_improvements_def analyze_project_management_performance_def Let_def)

theorem suggest_improvements_empty_pm_logs_witness:
  "project_management_logs
     \<lparr>performance_logs =
        [\<lparr>timestamp = 5, task_name = ''m.f'', result = VNone, execution_time = 3\<rparr>],
      project_management_logs = []\<rparr> = []
   \<and> suggest_improvements
        \<lparr>performance_logs =
           [\<lparr>timestamp = 5, task_name = ''m.f'', result = VNone, execution_time = 3\<rparr>],
         project_management_logs = []\<rparr>
       = Inr [''Consider optimizing task execution for better performance.'',
              ''Improve task completion rate in project management.'']"
proof -
  let ?sr = "\<lparr>performance_logs =
        [\<lparr>timestamp = 5, task_name = ''m.f'', result = VNone, execution_time = 3\<rparr>],
      project_management_logs = []\<rparr>"
  have e: "project_management_logs ?sr = []" by simp
  have a: "analyze_project_management_performance ?sr
             = Inr (Pm_message ''No project management data available.'')"
    using suggest_improvements_empty_pm_logs [OF e] by simp
  show ?thesis
    using e a by (simp add: suggest_improvements_def analyze_performance_def)
qed
section \<open>Properties of ai_core.py\<close>

lemma log_performance_call_does_not_bind:
  "\<not> binds log_performance_params 3 [''category'']"
  by (simp add: binds_def log_performance_params_def)

lemma core_execute_capability_keeps:
  "self_reflection (snd (core_execute_capability clock name c)) = self_reflection c
   \<and> performance_data (snd (core_execute_capability clock name c)) = performance_data c
   \<and> capability_registry (snd (core_execute_capability clock name c)) = capability_registry c
   \<and> running (snd (core_execute_capability clock name c)) = running c"
  by (simp add: core_execute_capability_def get_timestamp_def Let_def)

lemma cycle_body_keeps:
  "self_reflection (cycle_body clock name c) = self_reflection c
   \<and> performance_data (cycle_body clock name c) = performance_data c
   \<and> capability_registry (cycle_body clock name c) = capability_registry c
   \<and> running (cycle_body clock name c) = running c"
  using core_execute_capability_keeps [of clock name c]
  by (simp add: cycle_body_def log_performance_call_does_not_bind case_prod_unfold)

lemma cycle_loop_keeps:
  "self_reflection (cycle_loop clock xs c) = self_reflection c
   \<and> performance_data (cycle_loop clock xs c) = performance_data c
   \<and> capability_registry (cycle_loop clock xs c) = capability_registry c
   \<and> running (cycle_loop clock xs c) = running c"
proof (induction xs arbitrary: c)
  case Nil
  then show ?case by simp
next
  case (Cons x xs)
  obtain name descr where x: "x = (name, descr)" by (cases x)
  show ?case using Cons [of "cycle_body clock name c"] cycle_body_keeps [of clock name c] x
    by simp
qed

text \<open>Every listed capability is attempted: each costs two readings of the clock.\<close>

lemma cycle_loop_attempts_all:
  "clock_reads (cycle_loop clock xs c) = clock_reads c + 2 * length xs"
proof (induction xs arbitrary: c)
  case Nil
  then show ?case by simp
next
  case (Cons x xs)
  obtain name descr where x: "x = (name, descr)" by (cases x)
  have "clock_reads (cycle_body clock name c) = clock_reads c + 2"
    by (simp add: cycle_body_def log_performance_call_does_not_bind case_prod_unfold
        core_execute_capability_def get_timestamp_def Let_def)
  then show ?case using Cons [of "cycle_body clock name c"] x by simp
qed

text \<open>The constructor itself raises: \<open>SelfReflection\<close> takes one argument, not two.\<close>

lemma AICore_init_raises: "\<exists>x. AICore_init capability_dir e files = Inl x"
  by (simp add: AICore_init_def binds_def SelfReflection_init_params_def split: sum.splits)

text \<open>
  C2. The claim: a cycle records exactly one entry in the reflection history for every
  listed capability. \<open>execute_task_cycle\<close> calls \<open>log_performance\<close> with the keyword
  \<open>category\<close>, which the method of self_reflection.py does not take: the call raises
  TypeError, the \<open>except\<close> of the loop logs it, and nothing is recorded. The registry of
  \<open>sample_core\<close> lists one capability and its history is empty after the cycle; for every
  core and clock the cycle leaves the reflection state and \<open>performance_data\<close> as they
  were.
\<close>

theorem execute_task_cycle_records_nothing:
  "list_capabilities (capability_registry sample_core) = [(''m.f'', VStr ''d'')]
   \<and> performance_logs (self_reflection (execute_task_cycle clock sample_core)) = []
   \<and> self_reflection (execute_task_cycle clock c) = self_reflection c
   \<and> performance_data (execute_task_cycle clock c) = performance_data c"
  using cycle_loop_keeps [of clock _ c] cycle_loop_keeps [of clock _ sample_core]
  by (simp add: execute_task_cycle_def) (simp add: sample_core_def list_capabilities_def)

text \<open>Inside the improvement loop a failing handler is caught: the invocations made do
  not depend on which handlers raise.\<close>

lemma improvements_loop_invoked:
  "invoked (improvements_loop h xs a) = invoked a @ List.map_filter route xs
   \<and> escaped (improvements_loop h xs a) = escaped a"
proof (induction xs arbitrary: a)
  case Nil
  then show ?case by (simp add: List.map_filter_simps)
next
  case (Cons x xs)
  then show ?case by (simp add: List.map_filter_simps split: option.splits)
qed

text \<open>
  C7. The claim: a failing handler is caught per insight and the remaining insights are
  still evaluated. Only the improvement loop has a \<open>try\<close>. With the analysis of
  tests/test_ai_core.py (a decreasing trend of strength 0.6, anomalies, one routed
  improvement) and a trend handler that raises, the exception leaves \<open>act_on_insights\<close>
  after the one invocation: neither the anomaly handler nor the improvement handler is
  invoked. With the handlers of the source and an anomaly list that holds a string,
  \<open>address_anomalies\<close> raises TypeError and the improvement handler is not invoked
  either.
\<close>

theorem act_on_insights_handler_failure_escapes:
  "act_on_insights trend_handler_raises
     \<lparr>trend_analysis = Some \<lparr>trend_direction = Some ''decreasing'',
                              trend_strength = Some 0.6, slope = Some (- 0.1)\<rparr>,
      anomalies = Some [VBool True, VBool False, VBool True],
      performance_summary = Some [(''mean'', 1)],
      areas_for_improvement = Some [''Optimize performance for tasks: task1, task2'']\<rparr>
   = \<lparr>invoked = [Address_decreasing_performance
                    \<lparr>trend_direction = Some ''decreasing'',
                     trend_strength = Some 0.6, slope = Some (- 0.1)\<rparr>],
      logged = [], escaped = Some HandlerError\<rparr>
   \<and> act_on_insights source_handlers
     \<lparr>trend_analysis = None,
      anomalies = Some [VStr ''spike''],
      performance_summary = None,
      areas_for_improvement = Some [''Optimize performance for tasks: task1, task2'']\<rparr>
   = \<lparr>invoked = [Address_anomalies [] [VStr ''spike'']],
      logged = [], escaped = Some TypeError\<rparr>"
  by (simp add: act_on_insights_def trend_handler_raises_def source_handlers_def)

text \<open>With handlers that return, the same analysis reaches all three kinds of handler.\<close>

lemma act_on_insights_all_handlers_return:
  "act_on_insights source_handlers
     \<lparr>trend_analysis = Some \<lparr>trend_direction = Some ''decreasing'',
                              trend_strength = Some 0.6, slope = Some (- 0.1)\<rparr>,
      anomalies = Some [VBool True, VBool False, VBool True],
      performance_summary = Some [(''mean'', 1)],
      areas_for_improvement = Some [''Optimize performance for tasks: task1, task2'']\<rparr>
   = \<lparr>invoked = [Address_decreasing_performance
                    \<lparr>trend_direction = Some ''decreasing'',
                     trend_strength = Some 0.6, slope = Some (- 0.1)\<rparr>,
                 Address_anomalies [(''mean'', 1)] [VBool True, VBool False, VBool True],
                 Optimize_slow_tasks ''Optimize performance for tasks: task1, task2''],
      logged = [], escaped = None\<rparr>"
  by (simp add: act_on_insights_def source_handlers_def route_def contains_def sublist_code)

lemma core_execute_capability_running:
  "core_execute_capability clock name (c\<lparr>running := b\<rparr>) =
     (fst (core_execute_capability clock name c),
      (snd (core_execute_capability clock name c))\<lparr>running := b\<rparr>)"
  by (simp add: core_execute_capability_def get_timestamp_def Let_def)

lemma cycle_body_running:
  "cycle_body clock name (c\<lparr>running := b\<rparr>) = (cycle_body clock name c)\<lparr>running := b\<rparr>"
  by (simp add: cycle_body_def core_execute_capability_running binds_def
      log_performance_params_def case_prod_unfold)

lemma cycle_loop_running:
  "cycle_loop clock xs (c\<lparr>running := b\<rparr>) = (cycle_loop clock xs c)\<lparr>running := b\<rparr>"
proof (induction xs arbitrary: c)
  case Nil
  then show ?case by simp
next
  case (Cons x xs)
  obtain name descr where x: "x = (name, descr)" by (cases x)
  show ?case using Cons [of "cycle_body clock name c"] x by (simp add: cycle_body_running)
qed

lemma execute_task_cycle_stop:
  "execute_task_cycle clock (stop c) = stop (execute_task_cycle clock c)"
  by (simp add: execute_task_cycle_def stop_def cycle_loop_running)

lemma get_timestamp_stop:
  "get_timestamp clock (stop c) = (fst (get_timestamp clock c), stop (snd (get_timestamp clock c)))"
  by (simp add: get_timestamp_def stop_def)

lemma loop_step_stop_commute:
  "pc t \<noteq> At_loop_test \<Longrightarrow>
   loop_step clock (t\<lparr>core := stop (core t)\<rparr>)
     = (loop_step clock t)\<lparr>core := stop (core (loop_step clock t))\<rparr>"
  by (cases "pc t")
     (simp_all add: loop_step_def execute_task_cycle_stop get_timestamp_stop case_prod_unfold
        Let_def)

lemma sample_cycle:
  "execute_task_cycle clock20 (stop sample_core) = (stop sample_core)\<lparr>clock_reads := 2\<rparr>"
  by (simp add: execute_task_cycle_def sample_core_def stop_def list_capabilities_def
      cycle_body_def core_execute_capability_def get_timestamp_def binds_def numeral_2_eq_2
      log_performance_params_def Let_def)

text \<open>
  A whole run: \<open>stop()\<close> is called while the first cycle executes; the cycle, the
  reflection and the wait complete, and the loop returns at the next loop test.
\<close>

lemma stop_during_cycle_trace:
  "run clock20
     [Loop_step, Stop_call, Loop_step, Loop_step, Loop_step, Loop_step, Loop_step, Loop_step,
      Loop_step]
     (start sample_core)
   = \<lparr>core = sample_core\<lparr>running := False, clock_reads := 6\<rparr>, pc = Returned\<rparr>"
  by (simp add: start_def loop_step_def stop_def get_timestamp_def clock20_def
      get_time_difference_def execute_task_cycle_def list_capabilities_def cycle_body_def
      core_execute_capability_def binds_def log_performance_params_def sample_core_def
      eval_nat_numeral)

text \<open>
  C6, as the claim states it: the wait is a blocking pause, not a busy spin, that
  \<open>stop()\<close> cancels. In the code the wait polls the clock and never reads the flag: with
  \<open>stop()\<close> called as the wait begins and a clock that shows 20 seconds more at every
  reading, three steps of the loop read the clock four times and the loop is still
  inside the wait, which it leaves only for the reading of 60 seconds.
\<close>

theorem wait_is_not_cut_short_by_stop:
  "run clock20 [Stop_call, Loop_step, Loop_step, Loop_step] \<lparr>core = sample_core, pc = At_wait 60\<rparr>
     = \<lparr>core = sample_core\<lparr>running := False, clock_reads := 4\<rparr>, pc = In_wait 60 0 60\<rparr>"
  by (simp add: loop_step_def stop_def get_timestamp_def sample_core_def clock20_def
      get_time_difference_def eval_nat_numeral)

text \<open>
  C6, amended. \<open>stop()\<close> only clears the flag, and the loop reads the flag at its loop
  test only: at any other point a step of the loop after \<open>stop()\<close> is the same step
  without it, with the flag cleared afterwards, so the cycle in progress, the reflection
  and the wait go on as they would; at the loop test after \<open>stop()\<close> the loop returns
  without starting another cycle. The wait is a polling loop that does not read the
  flag: while the interval has not elapsed on the clock, a step after \<open>stop()\<close> reads the
  clock once more and stays in the wait; the wait ends, at the loop test, once the two
  readings differ by the interval.
\<close>

theorem stop_is_read_at_the_loop_test_only:
  "(pc t \<noteq> At_loop_test \<longrightarrow>
      loop_step clock (t\<lparr>core := stop (core t)\<rparr>)
        = (loop_step clock t)\<lparr>core := stop (core (loop_step clock t))\<rparr>)
   \<and> (pc t = At_loop_test \<longrightarrow>
      loop_step clock (t\<lparr>core := stop (core t)\<rparr>) = t\<lparr>core := stop (core t), pc := Returned\<rparr>)
   \<and> (pc t = In_wait seconds start_time end_time
        \<and> get_time_difference start_time end_time < real_of_int seconds \<longrightarrow>
      pc (loop_step clock (t\<lparr>core := stop (core t)\<rparr>))
        = In_wait seconds start_time (clock (clock_reads (core t)))
      \<and> clock_reads (core (loop_step clock (t\<lparr>core := stop (core t)\<rparr>)))
        = Suc (clock_reads (core t)))
   \<and> (pc t = In_wait seconds start_time end_time
        \<and> \<not> get_time_difference start_time end_time < real_of_int seconds \<longrightarrow>
      loop_step clock t = t\<lparr>pc := At_loop_test\<rparr>)"
proof (intro conjI impI)
  assume "pc t \<noteq> At_loop_test"
  then show "loop_step clock (t\<lparr>core := stop (core t)\<rparr>)
        = (loop_step clock t)\<lparr>core := stop (core (loop_step clock t))\<rparr>"
    by (rule loop_step_stop_commute)
next
  assume "pc t = At_loop_test"
  then show "loop_step clock (t\<lparr>core := stop (core t)\<rparr>) = t\<lparr>core := stop (core t), pc := Returned\<rparr>"
    by (simp add: loop_step_def stop_def)
next
  assume a: "pc t = In_wait seconds start_time end_time
        \<and> get_time_difference start_time end_time < real_of_int seconds"
  then show "pc (loop_step clock (t\<lparr>core := stop (core t)\<rparr>))
        = In_wait seconds start_time (clock (clock_reads (core t)))"
    by (simp add: loop_step_def stop_def get_timestamp_def)
  from a show "clock_reads (core (loop_step clock (t\<lparr>core := stop (core t)\<rparr>)))
        = Suc (clock_reads (core t))"
    by (simp add: loop_step_def stop_def get_timestamp_def)
next
  assume "pc t = In_wait seconds start_time end_time
        \<and> \<not> get_time_difference start_time end_time < real_of_int seconds"
  then show "loop_step clock t = t\<lparr>pc := At_loop_test\<rparr>"
    by (simp add: loop_step_def)
qed

theorem stop_is_read_at_the_loop_test_only_witness:
  "pc \<lparr>core = sample_core, pc = At_execute\<rparr> \<noteq> At_loop_test
   \<and> loop_step clock20 \<lparr>core = stop sample_core, pc = At_execute\<rparr>
       = \<lparr>core = (stop sample_core)\<lparr>clock_reads := 2\<rparr>, pc = At_reflect\<rparr>
   \<and> pc \<lparr>core = sample_core, pc = At_loop_test\<rparr> = At_loop_test
   \<and> loop_step clock20 \<lparr>core = stop sample_core, pc = At_loop_test\<rparr>
       = \<lparr>core = stop sample_core, pc = Returned\<rparr>
   \<and> get_time_difference 0 0 < real_of_int 60
   \<and> pc (loop_step clock20 \<lparr>core = stop sample_core, pc = In_wait 60 0 0\<rparr>) = In_wait 60 0 0
   \<and> \<not> get_time_difference 0 60 < real_of_int 60
   \<and> loop_step clock20 \<lparr>core = sample_core, pc = In_wait 60 0 60\<rparr>
       = \<lparr>core = sample_core, pc = At_loop_test\<rparr>"
proof -
  let ?c = sample_core
  have 1: "loop_step clock20 \<lparr>core = stop ?c, pc = At_execute\<rparr>
             = \<lparr>core = (stop ?c)\<lparr>clock_reads := 2\<rparr>, pc = At_reflect\<rparr>"
    using stop_is_read_at_the_loop_test_only
            [of "\<lparr>core = ?c, pc = At_execute\<rparr>" clock20, THEN conjunct1]
      sample_cycle
    by (simp add: loop_step_def execute_task_cycle_stop)
  have 2: "loop_step clock20 \<lparr>core = stop ?c, pc = At_loop_test\<rparr>
             = \<lparr>core = stop ?c, pc = Returned\<rparr>"
    using stop_is_read_at_the_loop_test_only
            [of "\<lparr>core = ?c, pc = At_loop_test\<rparr>" clock20, THEN conjunct2, THEN conjunct1]
    by simp
  have r: "clock_reads ?c = 0" by (simp add: sample_core_def)
  have 3: "pc (loop_step clock20 \<lparr>core = stop ?c, pc = In_wait 60 0 0\<rparr>) = In_wait 60 0 0"
    using stop_is_read_at_the_loop_test_only
            [of "\<lparr>core = ?c, pc = In_wait 60 0 0\<rparr>" clock20 60 0 0,
             THEN conjunct2, THEN conjunct2, THEN conjunct1] r
    by (simp add: get_time_difference_def clock20_def)
  have 4: "loop_step clock20 \<lparr>core = ?c, pc = In_wait 60 0 60\<rparr>
             = \<lparr>core = ?c, pc = At_loop_test\<rparr>"
    using stop_is_read_at_the_loop_test_only
            [of "\<lparr>core = ?c, pc = In_wait 60 0 60\<rparr>" clock20 60 0 60,
             THEN conjunct2, THEN conjunct2, THEN conjunct2]
    by (simp add: get_time_difference_def)
  show ?thesis using 1 2 3 4 by (simp add: get_time_difference_def)
qed

end
